theory Spec2Isabelle
  imports Main
begin

section \<open>Strings\<close>

text \<open>
  Python strings are modelled as \<^typ>\<open>string\<close>. The three string operations the
  drivers rely on are \<^verbatim>\<open>str.startswith\<close>, \<^verbatim>\<open>str.endswith\<close> and the substring
  test \<^verbatim>\<open>sub in text\<close>.
\<close>

fun startswith :: "string \<Rightarrow> string \<Rightarrow> bool" where
  "startswith s [] = True"
| "startswith [] (p # ps) = False"
| "startswith (c # cs) (p # ps) = (c = p \<and> startswith cs ps)"

definition endswith :: "string \<Rightarrow> string \<Rightarrow> bool" where
  "endswith s p = startswith (rev s) (rev p)"

text \<open>\<^verbatim>\<open>sub in text\<close>: some suffix of the text starts with \<open>sub\<close>.\<close>

fun py_in :: "string \<Rightarrow> string \<Rightarrow> bool" where
  "py_in sub [] = (sub = [])"
| "py_in sub (c # cs) = (startswith (c # cs) sub \<or> py_in sub cs)"

section \<open>The positive-result filter\<close>

text \<open>
  \<^verbatim>\<open>GetReports.get_report\<close> (audit.py) saves a report when
  \<^verbatim>\<open>clipboard_content and ("NoVulnerability" not in clipboard_content and
  "#No" not in clipboard_content and "Invalid" not in clipboard_content and
  "NoVulnerability" not in clipboard_content)\<close>; a Python string is truthy when it is
  not empty.
\<close>

definition is_positive_audit :: "string \<Rightarrow> bool" where
  "is_positive_audit clipboard_content =
     (clipboard_content \<noteq> [] \<and>
      (\<not> py_in ''NoVulnerability'' clipboard_content \<and>
       \<not> py_in ''#No'' clipboard_content \<and>
       \<not> py_in ''Invalid'' clipboard_content \<and>
       \<not> py_in ''NoVulnerability'' clipboard_content))"

text \<open>
  \<^verbatim>\<open>GetValidatedReports.get_report\<close> (audit_validation.py) tests
  \<^verbatim>\<open>"#NoVulnerability"\<close>, \<^verbatim>\<open>"#No"\<close> and \<^verbatim>\<open>"Invalid"\<close>.
\<close>

definition is_positive_validated :: "string \<Rightarrow> bool" where
  "is_positive_validated clipboard_content =
     (clipboard_content \<noteq> [] \<and>
      (\<not> py_in ''#NoVulnerability'' clipboard_content \<and>
       \<not> py_in ''#No'' clipboard_content \<and>
       \<not> py_in ''Invalid'' clipboard_content))"

section \<open>Records, stores and files\<close>

text \<open>
  A store is a JSON array of objects. A field value is \<^verbatim>\<open>null\<close>, a boolean or a
  string; an object is a Python \<^verbatim>\<open>dict\<close>, kept as an association list in insertion
  order whose first binding of a key is the key's value.
\<close>

datatype jval = JNull | JBool bool | JStr string

type_synonym jrecord = "(string \<times> jval) list"

text \<open>\<^verbatim>\<open>item.get(key)\<close> and \<^verbatim>\<open>item.get(key, default)\<close>.\<close>

definition dict_get_default :: "jrecord \<Rightarrow> string \<Rightarrow> jval \<Rightarrow> jval" where
  "dict_get_default item key dflt = (case map_of item key of None \<Rightarrow> dflt | Some v \<Rightarrow> v)"

definition dict_get :: "jrecord \<Rightarrow> string \<Rightarrow> jval" where
  "dict_get item key = dict_get_default item key JNull"

text \<open>\<^verbatim>\<open>item[key] = v\<close>: replaces the value in place, or adds the key at the end.\<close>

fun dict_set :: "jrecord \<Rightarrow> string \<Rightarrow> jval \<Rightarrow> jrecord" where
  "dict_set [] key v = [(key, v)]"
| "dict_set ((k, x) # item) key v =
     (if k = key then (k, v) # item else (k, x) # dict_set item key v)"

text \<open>Python truthiness, and \<^verbatim>\<open>a or b\<close>, which yields \<open>a\<close> when it is truthy.\<close>

fun truthy :: "jval \<Rightarrow> bool" where
  "truthy JNull = False"
| "truthy (JBool b) = b"
| "truthy (JStr s) = (s \<noteq> [])"

definition py_or :: "jval \<Rightarrow> jval \<Rightarrow> jval" where
  "py_or a b = (if truthy a then a else b)"

text \<open>
  A file that exists is modelled by what \<^verbatim>\<open>json.load\<close> makes of its content:
  \<open>Blank\<close> is an empty or whitespace-only file, \<open>Garbled\<close> any other content that
  is not JSON, \<open>Parsed v\<close> a content that decodes to \<open>v\<close>. \<^verbatim>\<open>json.load\<close> raises
  \<^verbatim>\<open>JSONDecodeError\<close> on the first two (\<open>None\<close> below). A file that does not exist
  is \<open>None\<close> in the world.
\<close>

datatype 'a json_file = Blank | Garbled | Parsed 'a

fun json_load :: "'a json_file \<Rightarrow> 'a option" where
  "json_load Blank = None"
| "json_load Garbled = None"
| "json_load (Parsed v) = Some v"

text \<open>
  An entry of a report directory is a regular file with its text, or a subdirectory
  (\<^verbatim>\<open>os.path.isfile\<close> tells them apart). A directory is listed in a fixed order.
\<close>

datatype entry = RegularFile string | SubDir

text \<open>
  The world the scripts act on: the five store files, the two report directories and
  the console. A console line is recorded by the fixed text of its \<^verbatim>\<open>print\<close>; the
  interpolated values are left out.
\<close>

record world =
  collections_json :: "jrecord list json_file option"
  reversed_collections_json :: "jrecord list json_file option"
  validated_json :: "jrecord list json_file option"
  questions_json :: "jrecord list json_file option"
  all_questions_json :: "string list json_file option"
  audits_dir :: "(string \<times> entry) list option"
  validated_dir :: "(string \<times> entry) list option"
  console :: "string list"

definition py_print :: "string \<Rightarrow> world \<Rightarrow> world" where
  "py_print line w = w\<lparr>console := console w @ [line]\<rparr>"

section \<open>Merger (run\_audit\_reversed\_merged.py)\<close>

text \<open>
  \<^verbatim>\<open>identifier = item.get("url") or item.get("question") or item.get("filename")\<close>
\<close>

definition identifier_of :: "jrecord \<Rightarrow> jval" where
  "identifier_of item =
     py_or (py_or (dict_get item ''url'') (dict_get item ''question''))
       (dict_get item ''filename'')"

text \<open>The first loop: the truthy identifiers of \<^verbatim>\<open>collections_data\<close>.\<close>

fun existing_identifiers_loop :: "jrecord list \<Rightarrow> jval set \<Rightarrow> jval set" where
  "existing_identifiers_loop [] existing_identifiers = existing_identifiers"
| "existing_identifiers_loop (item # rest) existing_identifiers =
     (let identifier = identifier_of item in
      if truthy identifier
      then existing_identifiers_loop rest (insert identifier existing_identifiers)
      else existing_identifiers_loop rest existing_identifiers)"

text \<open>
  The second loop over \<^verbatim>\<open>validated_data\<close>; its state is
  \<^verbatim>\<open>(collections_data, existing_identifiers, added_count)\<close>.
\<close>

fun merge_loop ::
  "jrecord list \<Rightarrow> jrecord list \<times> jval set \<times> nat \<Rightarrow> jrecord list \<times> jval set \<times> nat"
where
  "merge_loop [] st = st"
| "merge_loop (item # rest) (collections_data, existing_identifiers, added_count) =
     (let identifier = identifier_of item in
      if truthy identifier \<and> identifier \<notin> existing_identifiers
      then merge_loop rest
             (collections_data @ [item], insert identifier existing_identifiers,
              added_count + 1)
      else merge_loop rest (collections_data, existing_identifiers, added_count))"

text \<open>
  \<^verbatim>\<open>collections_data = []\<close>, replaced by \<^verbatim>\<open>json.load(f)\<close> when the file exists.
\<close>

definition load_collections_data :: "world \<Rightarrow> jrecord list option" where
  "load_collections_data w =
     (case collections_json w of None \<Rightarrow> Some [] | Some f \<Rightarrow> json_load f)"

text \<open>
  The whole function. \<^verbatim>\<open>collections_data\<close> starts as \<^verbatim>\<open>[]\<close> and is read with
  \<^verbatim>\<open>json.load\<close> when \<^verbatim>\<open>collections.json\<close> exists (\<open>None\<close>: the load raised); a
  missing \<^verbatim>\<open>reversed_collections.json\<close> returns early; any exception
  (here: a file that does not decode) is caught by the outer handler, which prints and
  returns without writing.
\<close>

definition merge_validated_into_collections :: "world \<Rightarrow> world" where
  "merge_validated_into_collections w =
     (case load_collections_data w of
        None \<Rightarrow> py_print ''Error merging files'' w
      | Some collections_data \<Rightarrow>
          (case reversed_collections_json w of
             None \<Rightarrow> py_print ''No reversed_collections.json found'' w
           | Some f \<Rightarrow>
               (case json_load f of
                  None \<Rightarrow> py_print ''Error merging files'' w
                | Some validated_data \<Rightarrow>
                    (case merge_loop validated_data
                            (collections_data,
                             existing_identifiers_loop collections_data {}, 0) of
                       (merged, seen, added_count) \<Rightarrow>
                         py_print ''Total items in collections.json''
                           (py_print ''Successfully merged''
                              (w\<lparr>collections_json := Some (Parsed merged)\<rparr>))))))"

text \<open>
  The Merger as the specification words it: a record of the secondary store is appended
  when its identity key is non-empty and is the identity key of no record of the primary
  store and of no record appended before it.
\<close>

fun spec_appended :: "jrecord list \<Rightarrow> jrecord list \<Rightarrow> jrecord list \<Rightarrow> jrecord list" where
  "spec_appended primary appended [] = appended"
| "spec_appended primary appended (r # secondary) =
     (if truthy (identifier_of r)
         \<and> identifier_of r \<notin> identifier_of ` set primary
         \<and> identifier_of r \<notin> identifier_of ` set appended
      then spec_appended primary (appended @ [r]) secondary
      else spec_appended primary appended secondary)"

section \<open>Loading a store\<close>

text \<open>
  The load portion of \<^verbatim>\<open>Deepwiki.save_to_collections\<close> (and of
  \<^verbatim>\<open>save_to_questions\<close>, \<^verbatim>\<open>save_to_validated\<close>, \<^verbatim>\<open>GetQuestions.get_questions\<close>,
  which differ in the file and in the warning only):
  \<^verbatim>\<open>
  try:
      if os.path.exists(collections_file):
          with open(collections_file, "r") as f:
              content = f.read().strip()
              data = json.loads(content) if content else []
      else:
          data = []
  except json.JSONDecodeError:
      print("Invalid collections.json, creating new file")
      data = []
  \<close>
  It returns the data and the world with the console it leaves.
\<close>

definition load_existing_data ::
  "string \<Rightarrow> 'a list json_file option \<Rightarrow> world \<Rightarrow> 'a list \<times> world"
where
  "load_existing_data warning file w =
     (case file of
        None \<Rightarrow> ([], w)
      | Some Blank \<Rightarrow> ([], w)
      | Some Garbled \<Rightarrow> ([], py_print warning w)
      | Some (Parsed data) \<Rightarrow> (data, w))"


section \<open>Asking a question (audit.py, class Deepwiki)\<close>

text \<open>
  \<^verbatim>\<open>save_to_collections(question, url, is_reversed)\<close>; \<open>now\<close> is
  \<^verbatim>\<open>str(datetime.now())\<close>.
\<close>

definition new_entry :: "string \<Rightarrow> string \<Rightarrow> string \<Rightarrow> jrecord" where
  "new_entry question url now =
     [(''question'', JStr question), (''url'', JStr url),
      (''timestamp'', JStr now), (''report_generated'', JBool False)]"

definition save_to_collections ::
  "string \<Rightarrow> string \<Rightarrow> string \<Rightarrow> bool \<Rightarrow> world \<Rightarrow> world"
where
  "save_to_collections question url now is_reversed w =
     (case load_existing_data ''Invalid collections.json, creating new file''
             (if is_reversed then reversed_collections_json w else collections_json w) w of
        (data, w1) \<Rightarrow>
          py_print ''dumped''
            (if is_reversed
             then w1\<lparr>reversed_collections_json :=
                       Some (Parsed (data @ [new_entry question url now]))\<rparr>
             else w1\<lparr>collections_json :=
                       Some (Parsed (data @ [new_entry question url now]))\<rparr>))"

text \<open>
  \<^verbatim>\<open>ask_question(question_gotten, is_reversed)\<close>. Everything the method does in the
  browser is the agent's: its outcome is \<open>None\<close> when any step raises (a timeout, an
  element that is not found) and \<open>Some current_url\<close> otherwise. The handler
  \<^verbatim>\<open>except Exception\<close> prints and returns.
\<close>

definition ask_question ::
  "string option \<Rightarrow> string \<Rightarrow> string \<Rightarrow> bool \<Rightarrow> world \<Rightarrow> world"
where
  "ask_question outcome now question_gotten is_reversed w =
     (case outcome of
        None \<Rightarrow> py_print ''There was an error in index'' w
      | Some current_url \<Rightarrow>
          save_to_collections question_gotten current_url now is_reversed w)"

section \<open>The reversed audit driver (run\_audit\_reversed.py)\<close>

text \<open>
  \<^verbatim>\<open>load_processed_questions\<close>: for each of the two stores that exists, the
  \<^verbatim>\<open>question\<close> fields of its records (\<^verbatim>\<open>item.get("question", "")\<close>); a store that
  does not load is reported and skipped.
\<close>

definition processed_update ::
  "jrecord list json_file option \<Rightarrow> jval set \<times> world \<Rightarrow> jval set \<times> world"
where
  "processed_update file st =
     (case st of (processed, w) \<Rightarrow>
        (case file of
           None \<Rightarrow> (processed, w)
         | Some f \<Rightarrow>
             (case json_load f of
                None \<Rightarrow> (processed, py_print ''Error loading'' w)
              | Some data \<Rightarrow>
                  (processed \<union> (\<lambda>item. dict_get_default item ''question'' (JStr [])) ` set data,
                   w))))"

definition load_processed_questions :: "world \<Rightarrow> jval set \<times> world" where
  "load_processed_questions w =
     processed_update (reversed_collections_json w)
       (processed_update (collections_json w) ({}, w))"



section \<open>What a run of the reversed audit driver amounts to\<close>


text \<open>
  The records a list of numbered dispatches leaves: one for each dispatch the agent
  answers, none for a dispatch that fails.
\<close>

definition records_of_dispatches ::
  "(nat \<Rightarrow> string \<Rightarrow> string option) \<Rightarrow> (nat \<Rightarrow> string) \<Rightarrow> (nat \<times> string) list \<Rightarrow> jrecord list"
where
  "records_of_dispatches agent clock dispatches =
     List.map_filter
       (\<lambda>(k, question). map_option (\<lambda>url. new_entry question url (clock k)) (agent k question))
       dispatches"

text \<open>The records a store file holds for the load portion above.\<close>

definition data_of :: "'a list json_file option \<Rightarrow> 'a list" where
  "data_of file = (case file of Some (Parsed data) \<Rightarrow> data | _ \<Rightarrow> [])"


section \<open>Report numbering (audit.py and audit\_validation.py)\<close>

text \<open>
  Characters are code points below 256. \<^verbatim>\<open>str.isspace\<close> holds there of the code points
  9 to 13, 28 to 32, 133 and 160; the only decimal digits are the ASCII ones.
\<close>

definition isspace :: "char \<Rightarrow> bool" where
  "isspace c = ((of_char c :: nat) \<in> {9, 10, 11, 12, 13, 28, 29, 30, 31, 32, 133, 160})"

definition isdigit :: "char \<Rightarrow> bool" where
  "isdigit c = (48 \<le> (of_char c :: nat) \<and> (of_char c :: nat) \<le> 57)"

text \<open>\<^verbatim>\<open>s.strip()\<close>\<close>

definition py_strip :: "string \<Rightarrow> string" where
  "py_strip s = rev (dropWhile isspace (rev (dropWhile isspace s)))"

text \<open>
  \<^verbatim>\<open>s.replace(old, new)\<close>: every occurrence of \<open>old\<close>, found from the left without
  overlap, becomes \<open>new\<close>; for the empty \<open>old\<close>, \<open>new\<close> goes before every character and at
  the end.
\<close>

function py_replace :: "string \<Rightarrow> string \<Rightarrow> string \<Rightarrow> string" where
  "py_replace [] old new = (if old = [] then new else [])"
| "py_replace (c # cs) old new =
     (if old = [] then new @ c # py_replace cs old new
      else if startswith (c # cs) old
        then new @ py_replace (drop (length old) (c # cs)) old new
      else c # py_replace cs old new)"
  by pat_completeness auto
termination
  by (relation "measure (\<lambda>(s, old, new). length s)") auto

text \<open>
  \<^verbatim>\<open>int(s)\<close> on a string, \<open>None\<close> for \<^verbatim>\<open>ValueError\<close>. The whitespace \<^verbatim>\<open>int\<close> drops
  at the two ends is narrower than that of \<^verbatim>\<open>str.strip\<close>: the code points 9 to 13, 32,
  133 and 160, not 28 to 31. One sign is allowed, then come decimal digits, with single
  underscores allowed between two digits. A string of more than 4300 digits is refused
  (the interpreter's default limit for the conversion).
\<close>

definition int_isspace :: "char \<Rightarrow> bool" where
  "int_isspace c = ((of_char c :: nat) \<in> {9, 10, 11, 12, 13, 32, 133, 160})"

fun parse_digits :: "string \<Rightarrow> bool \<Rightarrow> nat \<Rightarrow> nat option" where
  "parse_digits [] after_digit acc = (if after_digit then Some acc else None)"
| "parse_digits (c # cs) after_digit acc =
     (if isdigit c then parse_digits cs True (10 * acc + (of_char c - 48))
      else if c = CHR ''_'' \<and> after_digit then parse_digits cs False acc
      else None)"

definition py_int :: "string \<Rightarrow> int option" where
  "py_int s =
     (case rev (dropWhile int_isspace (rev (dropWhile int_isspace s))) of
        [] \<Rightarrow> None
      | c # cs \<Rightarrow>
          if 4300 < length (filter isdigit (c # cs)) then None
          else if c = CHR ''-'' then map_option (\<lambda>n. - int n) (parse_digits cs False 0)
          else if c = CHR ''+'' then map_option int (parse_digits cs False 0)
          else map_option int (parse_digits (c # cs) False 0))"

text \<open>\<^verbatim>\<open>str(n)\<close> for an integer.\<close>

fun str_nat :: "nat \<Rightarrow> string" where
  "str_nat n =
     (if n < 10 then [''0123456789'' ! n]
      else str_nat (n div 10) @ [''0123456789'' ! (n mod 10)])"

declare str_nat.simps [simp del]

definition str_int :: "int \<Rightarrow> string" where
  "str_int i = (if i < 0 then CHR ''-'' # str_nat (nat (- i)) else str_nat (nat i))"

text \<open>
  The body of \<^verbatim>\<open>get_next_report_number\<close> once the directory is known to exist, on the
  names \<^verbatim>\<open>os.listdir\<close> returns:
  \<^verbatim>\<open>
  existing_files = [f for f in os.listdir("audits")
                    if f.startswith("audit_") and f.endswith(".md")]
  if not existing_files:
      return 1
  numbers = []
  for f in existing_files:
      try:
          num = int(f.replace("audit_", "").replace(".md", ""))
          numbers.append(num)
      except ValueError:
          continue
  return max(numbers) + 1 if numbers else 1
  \<close>
\<close>

definition report_number_of :: "string \<Rightarrow> int option" where
  "report_number_of f = py_int (py_replace (py_replace f ''audit_'' []) ''.md'' [])"

definition next_report_number :: "string list \<Rightarrow> int" where
  "next_report_number names =
     (let existing_files = filter (\<lambda>f. startswith f ''audit_'' \<and> endswith f ''.md'') names
      in if existing_files = [] then 1
         else (case List.map_filter report_number_of existing_files of
                 [] \<Rightarrow> 1
               | num # numbers \<Rightarrow> fold max numbers num + 1))"

text \<open>
  \<^verbatim>\<open>GetReports.get_next_report_number\<close> works on \<^verbatim>\<open>audits\<close> and
  \<^verbatim>\<open>GetValidatedReports.get_next_report_number\<close> on \<^verbatim>\<open>validated\<close>; a missing
  directory is created and the number is 1.
\<close>

definition get_next_report_number :: "world \<Rightarrow> int \<times> world" where
  "get_next_report_number w =
     (case audits_dir w of
        None \<Rightarrow> (1, w\<lparr>audits_dir := Some []\<rparr>)
      | Some listing \<Rightarrow> (next_report_number (map fst listing), w))"

definition get_next_validated_report_number :: "world \<Rightarrow> int \<times> world" where
  "get_next_validated_report_number w =
     (case validated_dir w of
        None \<Rightarrow> (1, w\<lparr>validated_dir := Some []\<rparr>)
      | Some listing \<Rightarrow> (next_report_number (map fst listing), w))"

text \<open>
  A conforming name in the words of the specification: it starts with \<open>audit_\<close>, ends with \<open>.md\<close>,
  and what remains between the two parses as an integer.
\<close>

definition middle_of :: "string \<Rightarrow> string" where
  "middle_of f = take (length f - 9) (drop 6 f)"

definition conforming :: "string \<Rightarrow> bool" where
  "conforming f =
     (startswith f ''audit_'' \<and> endswith f ''.md'' \<and> py_int (middle_of f) \<noteq> None)"

section \<open>Retrieving a report (audit.py, class GetReports)\<close>

text \<open>
  The loop of \<^verbatim>\<open>mark_report_generated\<close> and \<^verbatim>\<open>mark_questions_generated\<close>: the first
  record whose \<^verbatim>\<open>url\<close> equals the given one gets the flag, then \<^verbatim>\<open>break\<close>.
\<close>

fun mark_first :: "string \<Rightarrow> string \<Rightarrow> jrecord list \<Rightarrow> jrecord list" where
  "mark_first flag url [] = []"
| "mark_first flag url (item # rest) =
     (if dict_get item ''url'' = JStr url then dict_set item flag (JBool True) # rest
      else item # mark_first flag url rest)"

text \<open>
  \<^verbatim>\<open>mark_report_generated(url)\<close>: nothing for an empty \<open>url\<close>; a store that is missing
  or does not load raises inside the \<^verbatim>\<open>try\<close>, which prints.
\<close>

definition mark_report_generated :: "string \<Rightarrow> world \<Rightarrow> world" where
  "mark_report_generated url w =
     (if url = [] then w
      else (case collections_json w of
              None \<Rightarrow> py_print ''Error marking report as generated'' w
            | Some f \<Rightarrow>
                (case json_load f of
                   None \<Rightarrow> py_print ''Error marking report as generated'' w
                 | Some data \<Rightarrow>
                     w\<lparr>collections_json :=
                         Some (Parsed (mark_first ''report_generated'' url data))\<rparr>)))"

text \<open>
  \<^verbatim>\<open>open(filename, "w")\<close> and \<^verbatim>\<open>f.write\<close> in a directory listing: a new name is added,
  a regular file is overwritten, a subdirectory of that name makes \<^verbatim>\<open>open\<close> raise
  (\<open>None\<close>).
\<close>

definition write_file ::
  "string \<Rightarrow> string \<Rightarrow> (string \<times> entry) list \<Rightarrow> (string \<times> entry) list option"
where
  "write_file name content listing =
     (case map_of listing name of
        None \<Rightarrow> Some (listing @ [(name, RegularFile content)])
      | Some SubDir \<Rightarrow> None
      | Some (RegularFile old) \<Rightarrow>
          Some (map (\<lambda>(n, e). if n = name then (n, RegularFile content) else (n, e)) listing))"

text \<open>
  \<^verbatim>\<open>get_report(url)\<close>. The agent's outcome is \<open>None\<close> when a browser step raises and
  \<open>Some clipboard_content\<close> otherwise.
  \<^verbatim>\<open>
  try:
      ... browser steps ...
      clipboard_content = pyperclip.paste()
      if clipboard_content and (...):
          filename = f"audits/audit_{self.get_next_report_number()}.md"
          with open(filename, "w") as f:
              f.write(clipboard_content)
          print(f"Saved report for question {url} to {filename}")
      else:
          # This will now handle both empty clipboard and cases where no vulnerability was found
          print(f"No vulnerability found or clipboard was empty for: '{url}'")
      self.mark_report_generated(url)
      time.sleep(1)
  except Exception as e:
      print(f"There was an error in index {url}: {e}")
  \<close>
\<close>

definition get_report :: "string option \<Rightarrow> string \<Rightarrow> world \<Rightarrow> world" where
  "get_report outcome url w =
     (case outcome of
        None \<Rightarrow> py_print ''There was an error in index'' w
      | Some clipboard_content \<Rightarrow>
          if is_positive_audit clipboard_content
          then (case get_next_report_number w of
                  (n, w1) \<Rightarrow>
                    (case audits_dir w1 of
                       None \<Rightarrow> py_print ''There was an error in index'' w1
                     | Some listing \<Rightarrow>
                         (case write_file (''audit_'' @ str_int n @ ''.md'')
                                 clipboard_content listing of
                            None \<Rightarrow> py_print ''There was an error in index'' w1
                          | Some listing' \<Rightarrow>
                              mark_report_generated url
                                (py_print ''Saved report for question''
                                   (w1\<lparr>audits_dir := Some listing'\<rparr>)))))
          else mark_report_generated url
                 (py_print ''No vulnerability found or clipboard was empty for'' w))"

section \<open>The report driver (run\_report.py)\<close>

text \<open>
  \<^verbatim>\<open>load_processed_reports\<close>: the empty set when \<^verbatim>\<open>audits\<close> does not exist; otherwise
  the \<^verbatim>\<open>url\<close> of every record of \<^verbatim>\<open>collections.json\<close> whose \<^verbatim>\<open>report_generated\<close> is
  truthy.
\<close>

definition load_processed_reports :: "world \<Rightarrow> jval set \<times> world" where
  "load_processed_reports w =
     (case audits_dir w of
        None \<Rightarrow> ({}, w)
      | Some listing \<Rightarrow>
          (case collections_json w of
             None \<Rightarrow> ({}, w)
           | Some f \<Rightarrow>
               (case json_load f of
                  None \<Rightarrow> ({}, py_print ''Error loading collections'' w)
                | Some data \<Rightarrow>
                    (set (map (\<lambda>item. dict_get_default item ''url'' (JStr []))
                            (filter (\<lambda>item. truthy (dict_get_default item
                                       ''report_generated'' (JBool False))) data)),
                     w))))"

text \<open>
  \<^verbatim>\<open>get_pending_urls\<close> of run\_report.py: the truthy \<^verbatim>\<open>url\<close> fields that are not among
  the processed ones, in store order.
\<close>

definition get_pending_urls :: "world \<Rightarrow> jval list \<times> world" where
  "get_pending_urls w =
     (case collections_json w of
        None \<Rightarrow> ([], py_print ''No collections.json found'' w)
      | Some f \<Rightarrow>
          (case json_load f of
             None \<Rightarrow> ([], py_print ''Error loading collections'' w)
           | Some data \<Rightarrow>
               (case load_processed_reports w of
                  (processed, w1) \<Rightarrow>
                    (filter (\<lambda>url. truthy url \<and> url \<notin> processed)
                       (map (\<lambda>item. dict_get_default item ''url'' (JStr [])) data),
                     w1))))"

text \<open>
  The loop of \<^verbatim>\<open>main\<close>, with its cap of 500. A pending url that is not a string makes
  \<^verbatim>\<open>url[:50]\<close> raise \<^verbatim>\<open>TypeError\<close>, which leaves the loop (\<open>Inl\<close>) for the handler of
  \<^verbatim>\<open>main\<close>.
\<close>

fun report_loop ::
  "(nat \<Rightarrow> string \<Rightarrow> string option) \<Rightarrow> jval list \<Rightarrow> nat \<Rightarrow> world \<Rightarrow> world + world"
where
  "report_loop agent [] counter w = Inr w"
| "report_loop agent (JStr url # rest) counter w =
     (let w' = get_report (agent counter url) url (py_print ''Generating report for'' w)
      in if counter + 1 \<ge> 500 then Inr w' else report_loop agent rest (counter + 1) w')"
| "report_loop agent (url # rest) counter w = Inl w"

definition run_report :: "(nat \<Rightarrow> string \<Rightarrow> string option) \<Rightarrow> world \<Rightarrow> world" where
  "run_report agent w =
     (case get_pending_urls w of
        (pending_urls, w1) \<Rightarrow>
          if length pending_urls = 0 then py_print ''No pending reports to generate'' w1
          else (case report_loop agent pending_urls 0 (py_print ''Found URLs needing reports'' w1) of
                  Inr w2 \<Rightarrow> py_print ''=== Completed reports ==='' w2
                | Inl w2 \<Rightarrow> py_print ''Error'' w2))"

section \<open>Extracting questions (questions\_generator.py, class GetQuestions)\<close>

text \<open>
  \<^verbatim>\<open>re.findall(r'"(\[File:.*?)"', text, flags=re.DOTALL)\<close>: scanning from the left, a
  match starts at a double quote followed by \<open>[File:\<close> and runs to the next double quote
  after it (the lazy \<^verbatim>\<open>.*?\<close>, which with \<^verbatim>\<open>DOTALL\<close> takes any character); the group
  is the text between the two quotes; the scan resumes behind the closing quote. Where
  no closing quote follows, the scan moves on by one character.
\<close>

definition dq :: char where
  "dq = CHR 0x22"

fun until_quote :: "string \<Rightarrow> (string \<times> string) option" where
  "until_quote [] = None"
| "until_quote (c # cs) =
     (if c = dq then Some ([], cs)
      else map_option (\<lambda>(body, rest). (c # body, rest)) (until_quote cs))"

lemma until_quote_shorter: "until_quote s = Some (body, rest) \<Longrightarrow> length rest < length s"
  by (induction s arbitrary: body rest) (auto split: if_splits)

function findall_file :: "string \<Rightarrow> string list" where
  "findall_file [] = []"
| "findall_file (c # cs) =
     (if c = dq \<and> startswith cs ''[File:''
      then (case until_quote (drop 6 cs) of
              None \<Rightarrow> findall_file cs
            | Some (body, rest) \<Rightarrow> (''[File:'' @ body) # findall_file rest)
      else findall_file cs)"
  by pat_completeness auto
termination
proof (relation "measure length")
  fix c cs x2 x y
  assume "until_quote (drop 6 cs) = Some x2" and "(x, y) = x2"
  then have "length y < length (drop 6 cs)" using until_quote_shorter [of "drop 6 cs" x y] by simp
  then show "(y, c # cs) \<in> measure length" by simp
qed auto

text \<open>
  \<^verbatim>\<open>get_question_content\<close>:
  \<^verbatim>\<open>
  questions = re.findall(pattern, clip_board_content, flags=re.DOTALL)
  # Optional: Clean up whitespace (strip) for each question found
  return [q.strip() for q in questions]
  \<close>
\<close>

definition get_question_content :: "string \<Rightarrow> string list" where
  "get_question_content clip_board_content = map py_strip (findall_file clip_board_content)"

text \<open>\<^verbatim>\<open>mark_questions_generated(url)\<close>, on \<^verbatim>\<open>questions.json\<close>.\<close>

definition mark_questions_generated :: "string \<Rightarrow> world \<Rightarrow> world" where
  "mark_questions_generated url w =
     (if url = [] then w
      else (case questions_json w of
              None \<Rightarrow> py_print ''Error marking report as generated'' w
            | Some f \<Rightarrow>
                (case json_load f of
                   None \<Rightarrow> py_print ''Error marking report as generated'' w
                 | Some data \<Rightarrow>
                     w\<lparr>questions_json :=
                         Some (Parsed (mark_first ''questions_generated'' url data))\<rparr>)))"

text \<open>
  \<^verbatim>\<open>GetQuestions.get_questions(url)\<close>: the extracted questions are appended to
  \<^verbatim>\<open>all_questions.json\<close> (\<^verbatim>\<open>data.extend(questions)\<close>), then the url is marked.
\<close>

definition GetQuestions_get_questions :: "string option \<Rightarrow> string \<Rightarrow> world \<Rightarrow> world" where
  "GetQuestions_get_questions outcome url w =
     (case outcome of
        None \<Rightarrow> py_print ''There was an error in index'' w
      | Some clipboard_content \<Rightarrow>
          (case load_existing_data ''Invalid questions.json, creating new file''
                  (all_questions_json w) w of
             (data, w1) \<Rightarrow>
               mark_questions_generated url
                 (w1\<lparr>all_questions_json :=
                       Some (Parsed (data @ get_question_content clipboard_content))\<rparr>)))"

section \<open>The question extraction driver (run\_questions\_generator\_questions.py)\<close>

text \<open>
  \<^verbatim>\<open>get_pending_urls\<close> of this driver takes the \<^verbatim>\<open>url\<close> of every record of
  \<^verbatim>\<open>questions.json\<close>:
  \<^verbatim>\<open>
  for item in data:
      url = item.get("url", "")
      pending.append(url)
  \<close>
\<close>

definition get_pending_urls_questions :: "world \<Rightarrow> jval list \<times> world" where
  "get_pending_urls_questions w =
     (case questions_json w of
        None \<Rightarrow> ([], py_print ''No questions.json found'' w)
      | Some f \<Rightarrow>
          (case json_load f of
             None \<Rightarrow> ([], py_print ''Error loading collections'' w)
           | Some data \<Rightarrow> (map (\<lambda>item. dict_get_default item ''url'' (JStr [])) data, w)))"

fun questions_loop ::
  "(nat \<Rightarrow> string \<Rightarrow> string option) \<Rightarrow> jval list \<Rightarrow> nat \<Rightarrow> world \<Rightarrow> world + world"
where
  "questions_loop agent [] counter w = Inr w"
| "questions_loop agent (JStr url # rest) counter w =
     (let w' = GetQuestions_get_questions (agent counter url) url
                 (py_print ''Generating report for'' w)
      in if counter + 1 \<ge> 500 then Inr w' else questions_loop agent rest (counter + 1) w')"
| "questions_loop agent (url # rest) counter w = Inl w"

definition run_questions_generator_questions ::
  "(nat \<Rightarrow> string \<Rightarrow> string option) \<Rightarrow> world \<Rightarrow> world"
where
  "run_questions_generator_questions agent w =
     (case get_pending_urls_questions w of
        (pending_urls, w1) \<Rightarrow>
          if length pending_urls = 0 then py_print ''No pending reports to generate'' w1
          else (case questions_loop agent pending_urls 0
                       (py_print ''Found URLs needing reports'' w1) of
                  Inr w2 \<Rightarrow> py_print ''=== Completed reports ==='' w2
                | Inl w2 \<Rightarrow> py_print ''Error'' w2))"

section \<open>Texts with a known sequence of quoted segments\<close>

text \<open>
  The opening of a match: a double quote and the tag.
\<close>

definition file_tag :: string where
  "file_tag = dq # ''[File:''"

text \<open>
  A text made of segments \<open>"[File:body"\<close>, each after a gap, and of a tail.
\<close>

definition build_text :: "(string \<times> string) list \<Rightarrow> string \<Rightarrow> string" where
  "build_text segments tail =
     concat (map (\<lambda>(gap, body). gap @ file_tag @ body @ [dq]) segments) @ tail"

section \<open>Cleanup (run\_clean\_up.py)\<close>

text \<open>
  Which operations of the operating system fail during a run: creating the \<^verbatim>\<open>audits\<close>
  directory, removing a file of it, moving a file of \<^verbatim>\<open>validated\<close>, opening a store for
  writing.
\<close>

record faults =
  makedirs_fails :: bool
  remove_fails :: "string \<Rightarrow> bool"
  move_fails :: "string \<Rightarrow> bool"
  open_fails :: "string \<Rightarrow> bool"

text \<open>
  A step of the body either returns (\<open>Inr\<close>) or raises (\<open>Inl\<close>), in both cases with the
  world as it is at that point; a raise skips the steps that follow.
\<close>

definition and_then :: "world + world \<Rightarrow> (world \<Rightarrow> world + world) \<Rightarrow> world + world" where
  "and_then r step = (case r of Inl w \<Rightarrow> Inl w | Inr w \<Rightarrow> step w)"

text \<open>
  Step 1, the loop over \<^verbatim>\<open>os.listdir(audits_dir)\<close>:
  \<^verbatim>\<open>
  for filename in os.listdir(audits_dir):
      file_path = os.path.join(audits_dir, filename)
      if os.path.isfile(file_path):
          os.remove(file_path)
          print(f"Deleted: {file_path}")
  \<close>
\<close>

definition remove_entry :: "string \<Rightarrow> (string \<times> entry) list \<Rightarrow> (string \<times> entry) list" where
  "remove_entry filename listing = filter (\<lambda>(n, e). n \<noteq> filename) listing"

fun delete_loop :: "faults \<Rightarrow> (string \<times> entry) list \<Rightarrow> world \<Rightarrow> world + world" where
  "delete_loop fl [] w = Inr w"
| "delete_loop fl ((filename, SubDir) # rest) w = delete_loop fl rest w"
| "delete_loop fl ((filename, RegularFile text) # rest) w =
     (if remove_fails fl filename then Inl w
      else delete_loop fl rest
             (py_print ''Deleted''
                (w\<lparr>audits_dir := map_option (remove_entry filename) (audits_dir w)\<rparr>)))"

text \<open>
  Step 2, the loop over \<^verbatim>\<open>os.listdir(validated_dir)\<close>:
  \<^verbatim>\<open>
  for filename in os.listdir(validated_dir):
      src_path = os.path.join(validated_dir, filename)
      if os.path.isfile(src_path):
          dst_path = os.path.join(audits_dir, filename)
          shutil.move(src_path, dst_path)
          moved_count += 1
          print(f"Moved: {filename} -> {audits_dir}")
  \<close>
  \<^verbatim>\<open>shutil.move\<close> replaces a regular file of that name in \<^verbatim>\<open>audits\<close>; where the name is
  a subdirectory of \<^verbatim>\<open>audits\<close> the file goes inside it, and the listing of \<^verbatim>\<open>audits\<close>
  stays as it is.
\<close>

definition place_entry :: "string \<Rightarrow> string \<Rightarrow> (string \<times> entry) list \<Rightarrow> (string \<times> entry) list" where
  "place_entry filename text listing =
     (case map_of listing filename of
        None \<Rightarrow> listing @ [(filename, RegularFile text)]
      | Some SubDir \<Rightarrow> listing
      | Some (RegularFile old) \<Rightarrow>
          map (\<lambda>(n, e). if n = filename then (n, RegularFile text) else (n, e)) listing)"

fun move_loop :: "faults \<Rightarrow> (string \<times> entry) list \<Rightarrow> world \<Rightarrow> world + world" where
  "move_loop fl [] w = Inr w"
| "move_loop fl ((filename, SubDir) # rest) w = move_loop fl rest w"
| "move_loop fl ((filename, RegularFile text) # rest) w =
     (if move_fails fl filename \<or> audits_dir w = None then Inl w
      else move_loop fl rest
             (py_print ''Moved''
                (w\<lparr>validated_dir := map_option (remove_entry filename) (validated_dir w),
                   audits_dir := map_option (place_entry filename text) (audits_dir w)\<rparr>)))"

text \<open>
  Step 3:
  \<^verbatim>\<open>
  for json_file in json_files:
      with open(json_file, "w") as f:
          json.dump([], f, indent=2)
      print(f"Emptied {json_file}")
  \<close>
\<close>

definition empty_collections :: "faults \<Rightarrow> world \<Rightarrow> world + world" where
  "empty_collections fl w =
     (if open_fails fl ''collections.json'' then Inl w
      else Inr (py_print ''Emptied'' (w\<lparr>collections_json := Some (Parsed [])\<rparr>)))"

definition empty_validated :: "faults \<Rightarrow> world \<Rightarrow> world + world" where
  "empty_validated fl w =
     (if open_fails fl ''validated.json'' then Inl w
      else Inr (py_print ''Emptied'' (w\<lparr>validated_json := Some (Parsed [])\<rparr>)))"

definition empty_reversed_collections :: "faults \<Rightarrow> world \<Rightarrow> world + world" where
  "empty_reversed_collections fl w =
     (if open_fails fl ''reversed_collections.json'' then Inl w
      else Inr (py_print ''Emptied'' (w\<lparr>reversed_collections_json := Some (Parsed [])\<rparr>)))"

text \<open>The three steps in order: the body of the \<^verbatim>\<open>try\<close>.\<close>

definition delete_audits :: "faults \<Rightarrow> world \<Rightarrow> world + world" where
  "delete_audits fl w =
     (case audits_dir w of
        Some listing \<Rightarrow>
          and_then (delete_loop fl listing w) (\<lambda>w'. Inr (py_print ''Cleaned audits folder'' w'))
      | None \<Rightarrow>
          if makedirs_fails fl then Inl w
          else Inr (py_print ''Created audits folder'' (w\<lparr>audits_dir := Some []\<rparr>)))"

definition move_validated :: "faults \<Rightarrow> world \<Rightarrow> world + world" where
  "move_validated fl w =
     (case validated_dir w of
        Some listing \<Rightarrow>
          and_then (move_loop fl listing w) (\<lambda>w'. Inr (py_print ''Moved files from validated to audits'' w'))
      | None \<Rightarrow> Inr (py_print ''No validated folder found'' w))"

definition clean_up_body :: "faults \<Rightarrow> world \<Rightarrow> world + world" where
  "clean_up_body fl w =
     and_then (and_then (and_then (and_then (delete_audits fl w) (move_validated fl))
       (empty_collections fl)) (empty_validated fl)) (empty_reversed_collections fl)"

text \<open>
  \<^verbatim>\<open>clean_up\<close>: the body, under the function's one handler:
  \<^verbatim>\<open>
  try:
      ...
      print("\n=== Cleanup completed successfully ===")
  except Exception as e:
      print(f"Error during cleanup: {e}")
  \<close>
\<close>

definition clean_up :: "faults \<Rightarrow> world \<Rightarrow> world" where
  "clean_up fl w =
     (case clean_up_body fl w of
        Inr w' \<Rightarrow> py_print ''=== Cleanup completed successfully ==='' w'
      | Inl w' \<Rightarrow> py_print ''Error during cleanup'' w')"

definition no_faults :: faults where
  "no_faults = \<lparr>makedirs_fails = False, remove_fails = (\<lambda>f. False),
     move_fails = (\<lambda>f. False), open_fails = (\<lambda>f. False)\<rparr>"

text \<open>The world a step leaves, whether it returned or raised.\<close>

definition world_of :: "world + world \<Rightarrow> world" where
  "world_of r = (case r of Inl w \<Rightarrow> w | Inr w \<Rightarrow> w)"

text \<open>The names of the regular files of a listing (used in the proofs only).\<close>

definition deleted_names :: "(string \<times> entry) list \<Rightarrow> string list" where
  "deleted_names pre = map fst (filter (\<lambda>(n, e). e \<noteq> SubDir) pre)"

text \<open>
  The listing of \<^verbatim>\<open>audits\<close> after the regular files of a part of \<^verbatim>\<open>validated\<close> were
  moved into it, one after the other.
\<close>

fun placed :: "(string \<times> entry) list \<Rightarrow> (string \<times> entry) list \<Rightarrow> (string \<times> entry) list" where
  "placed [] listing = listing"
| "placed ((filename, SubDir) # pre) listing = placed pre listing"
| "placed ((filename, RegularFile content) # pre) listing =
     placed pre (place_entry filename content listing)"

text \<open>The truthy identity keys of a list of records (used in the proofs only).\<close>

definition truthy_ids :: "jrecord list \<Rightarrow> jval set" where
  "truthy_ids xs = {k. truthy k \<and> k \<in> identifier_of ` set xs}"

section \<open>Example worlds\<close>

definition empty_world :: world where
  "empty_world = \<lparr>collections_json = None, reversed_collections_json = None,
     validated_json = None, questions_json = None, all_questions_json = None,
     audits_dir = None, validated_dir = None, console = []\<rparr>"

text \<open>The specification's merge example: \<open>A = [{url: x}]\<close>, \<open>B = [{url: x}, {url: y}]\<close>.\<close>

definition merge_example_world :: world where
  "merge_example_world = empty_world
     \<lparr>collections_json := Some (Parsed [[(''url'', JStr ''x'')]]),
      reversed_collections_json :=
        Some (Parsed [[(''url'', JStr ''x'')], [(''url'', JStr ''y'')]])\<rparr>"



text \<open>An agent that always fails.\<close>

definition failing_agent :: "nat \<Rightarrow> string \<Rightarrow> string option" where
  "failing_agent k question = None"


text \<open>A report directory whose only entry is \<open>audit_audit_5.md\<close>.\<close>

definition stray_name_world :: world where
  "stray_name_world = empty_world\<lparr>audits_dir := Some [(''audit_audit_5.md'', RegularFile [])]\<rparr>"

text \<open>One asked question whose report has not been retrieved yet.\<close>

definition asked_world :: world where
  "asked_world = empty_world
     \<lparr>collections_json := Some (Parsed [new_entry ''q'' ''u'' ''t'']), audits_dir := Some []\<rparr>"

text \<open>
  One generated batch at url \<open>u1\<close> and no extracted question yet; the agent's clipboard
  holds one quoted question.
\<close>

definition batch_world :: world where
  "batch_world = empty_world
     \<lparr>questions_json :=
        Some (Parsed [[(''question'', JStr ''lib.rs''), (''url'', JStr ''u1''),
                       (''questions_generated'', JBool False)]]),
      all_questions_json := Some (Parsed [])\<rparr>"

definition batch_agent :: "nat \<Rightarrow> string \<Rightarrow> string option" where
  "batch_agent k url = Some (dq # ''[File: lib.rs] Q1'' @ [dq])"

text \<open>
  A text with three quoted questions, the first and the last alike, the second with
  blanks before its closing quote.
\<close>

definition three_segments :: "(string \<times> string) list" where
  "three_segments =
     [(''1. '', '' a.rs] Q1''), ('','' @ [CHR 0x0A], '' b.rs] Q2  ''),
      ('','' @ [CHR 0x0A] @ ''see '' @ [dq] @ ''x'' @ [dq] @ '' '', '' a.rs] Q1'')]"

text \<open>
  A project with two reports, one validated report and one recorded question, in which
  the first report cannot be removed; and the same project in which the validated
  report cannot be moved.
\<close>

definition stuck_world :: world where
  "stuck_world = empty_world
     \<lparr>collections_json := Some (Parsed [new_entry ''q'' ''u'' ''t'']),
      audits_dir := Some [(''audit_1.md'', RegularFile ''a''), (''audit_2.md'', RegularFile ''b'')],
      validated_dir := Some [(''audit_3.md'', RegularFile ''c'')]\<rparr>"

definition stuck_remove :: faults where
  "stuck_remove = no_faults\<lparr>remove_fails := (\<lambda>f. f = ''audit_1.md'')\<rparr>"

definition stuck_move :: faults where
  "stuck_move = no_faults\<lparr>move_fails := (\<lambda>f. f = ''audit_3.md'')\<rparr>"

definition stuck_makedirs :: faults where
  "stuck_makedirs = no_faults\<lparr>makedirs_fails := True\<rparr>"

definition stuck_remove_second :: faults where
  "stuck_remove_second = no_faults\<lparr>remove_fails := (\<lambda>f. f = ''audit_2.md'')\<rparr>"




text \<open>The same project with two validated reports, of which the second cannot be moved.\<close>

definition two_validated_world :: world where
  "two_validated_world = stuck_world
     \<lparr>validated_dir :=
        Some [(''audit_3.md'', RegularFile ''c''), (''audit_4.md'', RegularFile ''d'')]\<rparr>"

definition stuck_move_second :: faults where
  "stuck_move_second = no_faults\<lparr>move_fails := (\<lambda>f. f = ''audit_4.md'')\<rparr>"

section \<open>Facts about the string operations\<close>

lemma startswith_iff: "startswith s p \<longleftrightarrow> (\<exists>q. s = p @ q)"
  by (induction s p rule: startswith.induct) auto

lemma py_in_iff: "py_in sub s \<longleftrightarrow> (\<exists>p q. s = p @ sub @ q)"
proof (induction s)
  case Nil
  then show ?case by auto
next
  case (Cons c cs)
  show ?case
  proof
    assume "py_in sub (c # cs)"
    then consider "startswith (c # cs) sub" | "py_in sub cs" by auto
    then show "\<exists>p q. c # cs = p @ sub @ q"
    proof cases
      case 1
      then obtain q where "c # cs = sub @ q" by (auto simp: startswith_iff)
      then have "c # cs = [] @ sub @ q" by simp
      then show ?thesis by blast
    next
      case 2
      with Cons obtain p q where "cs = p @ sub @ q" by blast
      then have "c # cs = (c # p) @ sub @ q" by simp
      then show ?thesis by blast
    qed
  next
    assume "\<exists>p q. c # cs = p @ sub @ q"
    then obtain p q where pq: "c # cs = p @ sub @ q" by blast
    show "py_in sub (c # cs)"
    proof (cases p)
      case Nil
      with pq have "startswith (c # cs) sub" by (auto simp: startswith_iff)
      then show ?thesis by simp
    next
      case (Cons a p')
      with pq have "cs = p' @ sub @ q" by simp
      with Cons.IH have "py_in sub cs" by blast
      then show ?thesis by simp
    qed
  qed
qed

section \<open>Facts about the Merger\<close>

lemma json_load_Some: "json_load f = Some v \<longleftrightarrow> f = Parsed v"
  by (cases f) auto

lemma json_load_None: "json_load f = None \<longleftrightarrow> f = Blank \<or> f = Garbled"
  by (cases f) auto

lemma truthy_ids_simps [simp]:
  "truthy_ids [] = {}"
  "truthy_ids (x # xs) = (if truthy (identifier_of x) then insert (identifier_of x) (truthy_ids xs) else truthy_ids xs)"
  "truthy_ids (xs @ ys) = truthy_ids xs \<union> truthy_ids ys"
  by (auto simp: truthy_ids_def)

lemma existing_identifiers_loop_eq:
  "existing_identifiers_loop data seen = seen \<union> truthy_ids data"
  by (induction data arbitrary: seen) (auto simp: Let_def)

lemma spec_appended_length: "length app \<le> length (spec_appended primary app rs)"
proof (induction rs arbitrary: app)
  case Nil
  then show ?case by simp
next
  case (Cons r rs)
  have "length (app @ [r]) \<le> length (spec_appended primary (app @ [r]) rs)"
    by (rule Cons.IH)
  with Cons.IH [of app] show ?case by auto
qed

lemma fresh_iff:
  "truthy k \<Longrightarrow> k \<notin> truthy_ids (primary @ app) \<longleftrightarrow>
     k \<notin> identifier_of ` set primary \<and> k \<notin> identifier_of ` set app"
  by (auto simp: truthy_ids_def)

lemma merge_loop_spec:
  "seen = truthy_ids (primary @ app) \<Longrightarrow>
   merge_loop rs (primary @ app, seen, n) =
     (primary @ spec_appended primary app rs,
      truthy_ids (primary @ spec_appended primary app rs),
      n + (length (spec_appended primary app rs) - length app))"
proof (induction rs arbitrary: app seen n)
  case Nil
  then show ?case by simp
next
  case (Cons r rs)
  let ?k = "identifier_of r"
  show ?case
  proof (cases "truthy ?k \<and> ?k \<notin> seen")
    case True
    then have fresh: "?k \<notin> identifier_of ` set primary" "?k \<notin> identifier_of ` set app"
      using Cons.prems fresh_iff [of ?k primary app] by auto
    have seen': "insert ?k seen = truthy_ids (primary @ app @ [r])"
      using True Cons.prems by auto
    have step: "merge_loop (r # rs) (primary @ app, seen, n)
        = merge_loop rs (primary @ (app @ [r]), insert ?k seen, n + 1)"
      using True by (simp add: Let_def)
    have len: "length (app @ [r]) \<le> length (spec_appended primary (app @ [r]) rs)"
      by (rule spec_appended_length)
    have spec: "spec_appended primary app (r # rs) = spec_appended primary (app @ [r]) rs"
      using True fresh by simp
    show ?thesis
      unfolding step spec using Cons.IH [of "insert ?k seen" "app @ [r]" "n + 1"] seen' len
      by simp
  next
    case False
    then have step: "merge_loop (r # rs) (primary @ app, seen, n)
        = merge_loop rs (primary @ app, seen, n)"
      by (auto simp: Let_def)
    have spec: "spec_appended primary app (r # rs) = spec_appended primary app rs"
      using False Cons.prems fresh_iff [of ?k primary app] by auto
    show ?thesis unfolding step spec using Cons.IH [of seen app n] Cons.prems by simp
  qed
qed

lemma merge_loop_seen:
  "merge_loop rs (cd, seen, n) = (cd', seen', n') \<Longrightarrow> seen' = seen \<union> truthy_ids rs"
  by (induction rs arbitrary: cd seen n) (auto simp: Let_def split: if_splits)

lemma merge_loop_noop:
  "truthy_ids rs \<subseteq> seen \<Longrightarrow> merge_loop rs (cd, seen, n) = (cd, seen, n)"
  by (induction rs arbitrary: cd seen n) (auto simp: Let_def split: if_splits)


lemma merge_loop_from_primary:
  "merge_loop secondary (primary, existing_identifiers_loop primary {}, 0) =
     (primary @ spec_appended primary [] secondary,
      truthy_ids (primary @ spec_appended primary [] secondary),
      length (spec_appended primary [] secondary))"
  using merge_loop_spec [of "truthy_ids primary" primary "[]" secondary 0]
  by (simp add: existing_identifiers_loop_eq)

lemma merge_success:
  assumes "load_collections_data w = Some primary"
    and "reversed_collections_json w = Some (Parsed secondary)"
  shows "merge_validated_into_collections w =
     w\<lparr>collections_json := Some (Parsed (primary @ spec_appended primary [] secondary)),
       console := console w @ [''Successfully merged'', ''Total items in collections.json'']\<rparr>"
  using assms
  by (simp add: merge_validated_into_collections_def merge_loop_from_primary py_print_def)

lemma spec_appended_covers:
  "truthy_ids secondary \<subseteq> truthy_ids (primary @ spec_appended primary [] secondary)"
  using merge_loop_seen [OF merge_loop_from_primary [of secondary primary]] by blast

lemma spec_appended_again:
  "spec_appended (primary @ spec_appended primary [] secondary) [] secondary = []"
proof -
  let ?merged = "primary @ spec_appended primary [] secondary"
  have "merge_loop secondary (?merged, truthy_ids ?merged, 0) = (?merged, truthy_ids ?merged, 0)"
    by (rule merge_loop_noop) (rule spec_appended_covers)
  moreover have "merge_loop secondary (?merged, truthy_ids ?merged, 0) =
      (?merged @ spec_appended ?merged [] secondary,
       truthy_ids (?merged @ spec_appended ?merged [] secondary),
       length (spec_appended ?merged [] secondary))"
    using merge_loop_from_primary [of secondary ?merged]
    by (simp add: existing_identifiers_loop_eq)
  ultimately have "(?merged, truthy_ids ?merged, 0::nat) =
      (?merged @ spec_appended ?merged [] secondary,
       truthy_ids (?merged @ spec_appended ?merged [] secondary),
       length (spec_appended ?merged [] secondary))"
    by (rule trans [OF sym])
  then have "?merged = ?merged @ spec_appended ?merged [] secondary"
    by (rule Pair_inject)
  then show ?thesis by simp
qed

section \<open>Facts about the reversed audit driver\<close>

lemma load_existing_data_fst: "fst (load_existing_data warning file w) = data_of file"
  by (simp add: load_existing_data_def data_of_def split: option.splits json_file.splits)

lemma py_print_fields [simp]:
  "collections_json (py_print l w) = collections_json w"
  "reversed_collections_json (py_print l w) = reversed_collections_json w"
  "validated_json (py_print l w) = validated_json w"
  "questions_json (py_print l w) = questions_json w"
  "all_questions_json (py_print l w) = all_questions_json w"
  "audits_dir (py_print l w) = audits_dir w"
  "validated_dir (py_print l w) = validated_dir w"
  "console (py_print l w) = console w @ [l]"
  by (simp_all add: py_print_def)




lemma records_of_dispatches_Nil [simp]: "records_of_dispatches agent clock [] = []"
  by (simp add: records_of_dispatches_def List.map_filter_simps)



lemma processed_update_files:
  "collections_json (snd (processed_update file (p, w))) = collections_json w"
  "reversed_collections_json (snd (processed_update file (p, w))) = reversed_collections_json w"
  by (simp_all add: processed_update_def split: option.splits)




section \<open>Facts about report retrieval\<close>

lemma load_processed_reports_print:
  "fst (load_processed_reports (py_print l w)) = fst (load_processed_reports w)"
  by (simp add: load_processed_reports_def split: option.splits)

lemma get_pending_urls_print:
  "fst (get_pending_urls (py_print l w)) = fst (get_pending_urls w)"
  using load_processed_reports_print [of l w]
  by (auto simp: get_pending_urls_def split: option.splits prod.splits)

lemma load_processed_questions_print:
  "fst (load_processed_questions (py_print l w)) = fst (load_processed_questions w)"
  by (simp add: load_processed_questions_def processed_update_def split: option.splits)

lemma mark_first_split:
  "\<forall>x \<in> set pre. dict_get x ''url'' \<noteq> JStr url \<Longrightarrow> dict_get item ''url'' = JStr url \<Longrightarrow>
   mark_first flag url (pre @ item # post) = pre @ dict_set item flag (JBool True) # post"
  by (induction pre) auto

lemma map_of_dict_set: "map_of (dict_set item key v) key = Some v"
  by (induction item key v rule: dict_set.induct) auto

lemma dict_get_dict_set: "dict_get (dict_set item key v) key = v"
  by (simp add: dict_get_def dict_get_default_def map_of_dict_set)

lemma get_report_empty_clipboard:
  "get_report (Some []) url w =
     mark_report_generated url (py_print ''No vulnerability found or clipboard was empty for'' w)"
  by (simp add: get_report_def is_positive_audit_def)

lemma mark_report_generated_audits [simp]:
  "audits_dir (mark_report_generated url w) = audits_dir w"
  by (simp add: mark_report_generated_def split: option.splits)

lemma mark_report_generated_parsed:
  "url \<noteq> [] \<Longrightarrow> collections_json w = Some (Parsed data) \<Longrightarrow>
   collections_json (mark_report_generated url w) =
     Some (Parsed (mark_first ''report_generated'' url data))"
  by (simp add: mark_report_generated_def)

text \<open>The parts of the numbering claim that hold.\<close>

lemma get_next_report_number_missing_dir:
  "audits_dir w = None \<Longrightarrow> get_next_report_number w = (1, w\<lparr>audits_dir := Some []\<rparr>)"
  by (simp add: get_next_report_number_def)

lemma next_report_number_no_candidate:
  "\<forall>f \<in> set names. \<not> (startswith f ''audit_'' \<and> endswith f ''.md'') \<Longrightarrow>
   next_report_number names = 1"
  by (simp add: next_report_number_def filter_empty_conv)

lemma next_report_number_example:
  "next_report_number [''audit_1.md'', ''audit_3.md'', ''notes.txt''] = 4"
  by (simp add: next_report_number_def endswith_def report_number_of_def py_int_def
      int_isspace_def isdigit_def List.map_filter_simps)

section \<open>Facts about the extraction\<close>

lemma until_quote_body:
  "dq \<notin> set body \<Longrightarrow> until_quote (body @ dq # rest) = Some (body, rest)"
  by (induction body) auto

lemma startswith_append_short:
  "startswith (g @ d # x) p \<Longrightarrow> length g < length p \<Longrightarrow> d \<in> set p"
proof (induction g arbitrary: p)
  case Nil
  then show ?case by (cases p) auto
next
  case (Cons a g)
  then show ?case by (cases p) auto
qed

lemma startswith_append_long:
  "startswith (g @ x) p \<Longrightarrow> length p \<le> length g \<Longrightarrow> startswith g p"
proof (induction g arbitrary: p)
  case Nil
  then show ?case by simp
next
  case (Cons a g)
  then show ?case by (cases p) auto
qed

lemma tag_not_at:
  assumes "\<not> startswith (c # g) file_tag"
  shows "\<not> (c = dq \<and> startswith (g @ dq # x) ''[File:'')"
proof
  assume a: "c = dq \<and> startswith (g @ dq # x) ''[File:''"
  show False
  proof (cases "length g < length ''[File:''")
    case True
    with a have "dq \<in> set ''[File:''" by (intro startswith_append_short [of g dq x]) auto
    then show False by (simp add: dq_def)
  next
    case False
    with a have "startswith g ''[File:''"
      by (intro startswith_append_long [of g "dq # x"]) auto
    with a have "startswith (c # g) file_tag" by (simp add: file_tag_def)
    with assms show False by simp
  qed
qed

lemma findall_file_skip:
  "\<not> (c = dq \<and> startswith cs ''[File:'') \<Longrightarrow> findall_file (c # cs) = findall_file cs"
  by auto

lemma findall_file_match:
  "dq \<notin> set body \<Longrightarrow>
   findall_file (file_tag @ body @ dq # rest) = (''[File:'' @ body) # findall_file rest"
  by (simp add: file_tag_def until_quote_body)

lemma findall_file_tail: "\<not> py_in file_tag tail \<Longrightarrow> findall_file tail = []"
proof (induction tail)
  case Nil
  then show ?case by simp
next
  case (Cons c cs)
  then have "\<not> startswith (c # cs) file_tag" and rest: "\<not> py_in file_tag cs" by auto
  then have "\<not> (c = dq \<and> startswith cs ''[File:'')"
    by (auto simp: file_tag_def)
  then have "findall_file (c # cs) = findall_file cs" by (rule findall_file_skip)
  with Cons.IH [OF rest] show ?case by simp
qed

lemma findall_file_segment:
  "\<not> py_in file_tag gap \<Longrightarrow> dq \<notin> set body \<Longrightarrow>
   findall_file (gap @ file_tag @ body @ dq # rest) = (''[File:'' @ body) # findall_file rest"
proof (induction gap)
  case Nil
  from findall_file_match [OF Nil(2)] show ?case by (simp only: append_Nil)
next
  case (Cons c g)
  then have ns: "\<not> startswith (c # g) file_tag" and ng: "\<not> py_in file_tag g" by auto
  have eq: "g @ file_tag @ body @ dq # rest = g @ dq # (''[File:'' @ body @ dq # rest)"
    by (simp add: file_tag_def)
  have "\<not> (c = dq \<and> startswith (g @ file_tag @ body @ dq # rest) ''[File:'')"
    unfolding eq by (rule tag_not_at [OF ns])
  then have "findall_file (c # (g @ file_tag @ body @ dq # rest)) =
      findall_file (g @ file_tag @ body @ dq # rest)"
    by (rule findall_file_skip)
  with Cons.IH [OF ng Cons.prems(2)] show ?case by (simp only: append_Cons)
qed

lemma findall_file_build_text:
  "\<forall>(gap, body) \<in> set segments. \<not> py_in file_tag gap \<and> dq \<notin> set body \<Longrightarrow>
   \<not> py_in file_tag tail \<Longrightarrow>
   findall_file (build_text segments tail) = map (\<lambda>(gap, body). ''[File:'' @ body) segments"
proof (induction segments)
  case Nil
  then show ?case by (simp add: build_text_def findall_file_tail)
next
  case (Cons s segments)
  obtain gap body where s: "s = (gap, body)" by (cases s)
  with Cons.prems have g: "\<not> py_in file_tag gap" and b: "dq \<notin> set body" by auto
  have "build_text (s # segments) tail = gap @ file_tag @ body @ dq # build_text segments tail"
    by (simp add: build_text_def s)
  then have "findall_file (build_text (s # segments) tail) =
      (''[File:'' @ body) # findall_file (build_text segments tail)"
    by (simp add: findall_file_segment [OF g b])
  with Cons show ?case by (simp add: s)
qed

section \<open>Facts about the cleanup\<close>

lemma delete_loop_other_fields [simp]:
  "validated_dir (world_of (delete_loop fl listing w)) = validated_dir w"
  "collections_json (world_of (delete_loop fl listing w)) = collections_json w"
  "validated_json (world_of (delete_loop fl listing w)) = validated_json w"
  "reversed_collections_json (world_of (delete_loop fl listing w)) = reversed_collections_json w"
  by (induction fl listing w rule: delete_loop.induct) (simp_all add: world_of_def py_print_def)

lemma filter_remove_entry:
  "filter (\<lambda>(m, e). m \<notin> S) (remove_entry n l) = filter (\<lambda>(m, e). m \<notin> insert n S) l"
  by (induction l) (auto simp: remove_entry_def)

lemma delete_loop_abort:
  "remove_fails fl name \<Longrightarrow> \<forall>(n, e) \<in> set pre. \<not> remove_fails fl n \<Longrightarrow>
   \<exists>w'. delete_loop fl (pre @ (name, RegularFile text) # post) w = Inl w'
     \<and> audits_dir w' =
         map_option (filter (\<lambda>(n, e). n \<notin> set (deleted_names pre))) (audits_dir w)"
proof (induction pre arbitrary: w)
  case Nil
  then show ?case by (simp add: deleted_names_def option.map_ident)
next
  case (Cons x pre)
  obtain n e where x: "x = (n, e)" by (cases x)
  from Cons.prems have rest: "\<forall>(n, e) \<in> set pre. \<not> remove_fails fl n" by simp
  show ?case
  proof (cases e)
    case SubDir
    with Cons.IH [OF Cons.prems(1) rest, of w] x show ?thesis
      by (simp add: deleted_names_def)
  next
    case (RegularFile t)
    let ?w = "py_print ''Deleted''
        (w\<lparr>audits_dir := map_option (remove_entry n) (audits_dir w)\<rparr>)"
    from Cons.prems x have ok: "\<not> remove_fails fl n" by simp
    from Cons.IH [OF Cons.prems(1) rest, of ?w] obtain w' where
      w': "delete_loop fl (pre @ (name, RegularFile text) # post) ?w = Inl w'"
      "audits_dir w' =
         map_option (filter (\<lambda>(n, e). n \<notin> set (deleted_names pre))) (audits_dir ?w)"
      by blast
    have names: "set (deleted_names (x # pre)) = insert n (set (deleted_names pre))"
      by (simp add: deleted_names_def x RegularFile)
    have "audits_dir w' =
        map_option (filter (\<lambda>(m, e). m \<notin> set (deleted_names (x # pre)))) (audits_dir w)"
      unfolding w'(2) names
      by (cases "audits_dir w") (simp_all add: py_print_def filter_remove_entry)
    with w'(1) ok x RegularFile show ?thesis by simp
  qed
qed

lemma kept_entries:
  assumes "distinct (map fst (pre @ x # post))"
  shows "filter (\<lambda>(n, e). n \<notin> set (deleted_names pre)) (pre @ x # post) =
     filter (\<lambda>(n, e). e = SubDir) pre @ x # post"
proof -
  have d: "distinct (map fst pre)" using assms by simp
  have key: "(n \<in> set (deleted_names pre)) = (e \<noteq> SubDir)" if y: "(n, e) \<in> set pre" for n e
  proof
    assume "n \<in> set (deleted_names pre)"
    then obtain e' where e': "(n, e') \<in> set pre" "e' \<noteq> SubDir"
      by (auto simp: deleted_names_def)
    from eq_key_imp_eq_value [OF d e'(1) y] e'(2) show "e \<noteq> SubDir" by simp
  next
    assume "e \<noteq> SubDir"
    with y show "n \<in> set (deleted_names pre)"
      by (force simp: deleted_names_def)
  qed
  have pre: "filter (\<lambda>(n, e). n \<notin> set (deleted_names pre)) pre =
      filter (\<lambda>(n, e). e = SubDir) pre"
    by (rule filter_cong) (auto simp: key)
  have sub: "set (deleted_names pre) \<subseteq> fst ` set pre"
    by (auto simp: deleted_names_def)
  have post: "filter (\<lambda>(n, e). n \<notin> set (deleted_names pre)) (x # post) = x # post"
  proof (rule filter_True, rule ballI)
    fix y assume "y \<in> set (x # post)"
    then have "fst y \<in> fst ` set (x # post)" by (rule imageI)
    moreover from assms have "fst ` set pre \<inter> fst ` set (x # post) = {}" by auto
    ultimately have "fst y \<notin> set (deleted_names pre)" using sub by blast
    then show "case y of (n, e) \<Rightarrow> n \<notin> set (deleted_names pre)" by (cases y) simp
  qed
  show ?thesis by (simp only: filter_append pre post)
qed

lemma world_of_simps [simp]: "world_of (Inl w) = w" "world_of (Inr w) = w"
  by (simp_all add: world_of_def)

lemma and_then_simps [simp]: "and_then (Inl w) step = Inl w" "and_then (Inr w) step = step w"
  by (simp_all add: and_then_def)

lemma clean_up_raised:
  "delete_audits fl w = Inl w' \<Longrightarrow> clean_up fl w = py_print ''Error during cleanup'' w'"
  by (simp add: clean_up_def clean_up_body_def)

lemma delete_audits_validated_dir:
  "delete_audits fl w = Inr w1 \<Longrightarrow> validated_dir w1 = validated_dir w"
proof (cases "audits_dir w")
  case None
  assume "delete_audits fl w = Inr w1"
  with None show ?thesis by (auto simp: delete_audits_def py_print_def split: if_splits)
next
  case (Some listing)
  assume r: "delete_audits fl w = Inr w1"
  show ?thesis
  proof (cases "delete_loop fl listing w")
    case (Inl x)
    with r Some show ?thesis by (simp add: delete_audits_def)
  next
    case (Inr x)
    with r Some have "w1 = py_print ''Cleaned audits folder'' x" by (simp add: delete_audits_def)
    moreover from Inr have "validated_dir x = validated_dir w"
      using delete_loop_other_fields(1) [of fl listing w] by simp
    ultimately show ?thesis by simp
  qed
qed

lemma delete_loop_succeeds:
  "\<forall>f. \<not> remove_fails fl f \<Longrightarrow>
   \<exists>w'. delete_loop fl listing w = Inr w' \<and> (audits_dir w \<noteq> None \<longrightarrow> audits_dir w' \<noteq> None)"
proof (induction fl listing w rule: delete_loop.induct)
  case (1 fl w)
  then show ?case by simp
next
  case (2 fl filename rest w)
  then show ?case by simp
next
  case (3 fl filename content rest w)
  then show ?case by (auto simp: py_print_def)
qed

lemma move_loop_succeeds:
  "\<forall>f. \<not> move_fails fl f \<Longrightarrow> audits_dir w \<noteq> None \<Longrightarrow> \<exists>w'. move_loop fl listing w = Inr w'"
proof (induction fl listing w rule: move_loop.induct)
  case (1 fl w)
  then show ?case by simp
next
  case (2 fl filename rest w)
  then show ?case by simp
next
  case (3 fl filename content rest w)
  then show ?case by (auto simp: py_print_def)
qed

lemma delete_audits_succeeds:
  assumes "\<not> makedirs_fails fl" and "\<forall>f. \<not> remove_fails fl f"
  shows "\<exists>w1. delete_audits fl w = Inr w1 \<and> audits_dir w1 \<noteq> None"
proof (cases "audits_dir w")
  case None
  with assms show ?thesis by (simp add: delete_audits_def py_print_def)
next
  case (Some listing)
  from delete_loop_succeeds [OF assms(2), of listing w] Some
  obtain w' where "delete_loop fl listing w = Inr w'" "audits_dir w' \<noteq> None" by auto
  with Some show ?thesis by (simp add: delete_audits_def)
qed

lemma move_validated_succeeds:
  assumes "\<forall>f. \<not> move_fails fl f" and "audits_dir w \<noteq> None"
  shows "\<exists>w2. move_validated fl w = Inr w2"
proof (cases "validated_dir w")
  case None
  then show ?thesis by (simp add: move_validated_def)
next
  case (Some listing)
  from move_loop_succeeds [OF assms, of listing] obtain w' where
    "move_loop fl listing w = Inr w'" by blast
  with Some show ?thesis by (simp add: move_validated_def)
qed

lemma clean_up_completes:
  assumes "\<not> makedirs_fails fl" and "\<forall>f. \<not> remove_fails fl f"
    and "\<forall>f. \<not> move_fails fl f" and "\<forall>f. \<not> open_fails fl f"
  shows "collections_json (clean_up fl w) = Some (Parsed [])
    \<and> validated_json (clean_up fl w) = Some (Parsed [])
    \<and> reversed_collections_json (clean_up fl w) = Some (Parsed [])
    \<and> last (console (clean_up fl w)) = ''=== Cleanup completed successfully ==='' "
proof -
  from delete_audits_succeeds [OF assms(1,2), of w] obtain w1 where
    w1: "delete_audits fl w = Inr w1" "audits_dir w1 \<noteq> None" by blast
  from move_validated_succeeds [OF assms(3) w1(2)] obtain w2 where
    w2: "move_validated fl w1 = Inr w2" by blast
  show ?thesis
    using assms(4)
    by (simp add: clean_up_def clean_up_body_def w1 w2 empty_collections_def
        empty_validated_def empty_reversed_collections_def py_print_def)
qed

lemma move_loop_other_fields [simp]:
  "collections_json (world_of (move_loop fl listing w)) = collections_json w"
  "validated_json (world_of (move_loop fl listing w)) = validated_json w"
  "reversed_collections_json (world_of (move_loop fl listing w)) = reversed_collections_json w"
  by (induction fl listing w rule: move_loop.induct) (simp_all add: py_print_def)

lemma delete_loop_keeps_dir:
  "audits_dir w \<noteq> None \<Longrightarrow> audits_dir (world_of (delete_loop fl listing w)) \<noteq> None"
  by (induction fl listing w rule: delete_loop.induct) (simp_all add: py_print_def)

lemma delete_audits_result:
  assumes "delete_audits fl w = Inr w1"
  shows "audits_dir w1 \<noteq> None" and "collections_json w1 = collections_json w"
    and "validated_json w1 = validated_json w"
    and "reversed_collections_json w1 = reversed_collections_json w"
proof -
  have "audits_dir w1 \<noteq> None \<and> collections_json w1 = collections_json w
      \<and> validated_json w1 = validated_json w
      \<and> reversed_collections_json w1 = reversed_collections_json w"
  proof (cases "audits_dir w")
    case None
    with assms show ?thesis by (auto simp: delete_audits_def py_print_def split: if_splits)
  next
    case (Some listing)
    show ?thesis
    proof (cases "delete_loop fl listing w")
      case (Inl x)
      with assms Some show ?thesis by (simp add: delete_audits_def)
    next
      case (Inr x)
      with assms Some have w1: "w1 = py_print ''Cleaned audits folder'' x"
        by (simp add: delete_audits_def)
      from Inr have x: "x = world_of (delete_loop fl listing w)" by simp
      from Some have "audits_dir w \<noteq> None" by simp
      from delete_loop_keeps_dir [OF this, of fl listing] show ?thesis
        by (simp add: w1 x)
    qed
  qed
  then show "audits_dir w1 \<noteq> None" and "collections_json w1 = collections_json w"
    and "validated_json w1 = validated_json w"
    and "reversed_collections_json w1 = reversed_collections_json w"
    by blast+
qed

lemma move_loop_abort:
  "move_fails fl name \<Longrightarrow> \<forall>(n, e) \<in> set pre. \<not> move_fails fl n \<Longrightarrow> audits_dir w \<noteq> None \<Longrightarrow>
   \<exists>w'. move_loop fl (pre @ (name, RegularFile content) # post) w = Inl w'
     \<and> validated_dir w' =
         map_option (filter (\<lambda>(n, e). n \<notin> set (deleted_names pre))) (validated_dir w)
     \<and> audits_dir w' = map_option (placed pre) (audits_dir w)"
proof (induction pre arbitrary: w)
  case Nil
  then show ?case by (simp add: deleted_names_def option.map_ident)
next
  case (Cons x pre)
  obtain n e where x: "x = (n, e)" by (cases x)
  from Cons.prems have rest: "\<forall>(n, e) \<in> set pre. \<not> move_fails fl n" by simp
  show ?case
  proof (cases e)
    case SubDir
    with Cons.IH [OF Cons.prems(1) rest Cons.prems(3)] x show ?thesis
      by (simp add: deleted_names_def)
  next
    case (RegularFile t)
    let ?w = "py_print ''Moved''
        (w\<lparr>validated_dir := map_option (remove_entry n) (validated_dir w),
           audits_dir := map_option (place_entry n t) (audits_dir w)\<rparr>)"
    from Cons.prems x have ok: "\<not> move_fails fl n" by simp
    from Cons.prems(3) have dir: "audits_dir ?w \<noteq> None" by (simp add: py_print_def)
    from Cons.IH [OF Cons.prems(1) rest dir] obtain w' where
      w': "move_loop fl (pre @ (name, RegularFile content) # post) ?w = Inl w'"
      "validated_dir w' =
         map_option (filter (\<lambda>(n, e). n \<notin> set (deleted_names pre))) (validated_dir ?w)"
      "audits_dir w' = map_option (placed pre) (audits_dir ?w)"
      by blast
    have names: "set (deleted_names (x # pre)) = insert n (set (deleted_names pre))"
      by (simp add: deleted_names_def x RegularFile)
    have v: "validated_dir w' =
        map_option (filter (\<lambda>(m, e). m \<notin> set (deleted_names (x # pre)))) (validated_dir w)"
      unfolding w'(2) names
      by (cases "validated_dir w") (simp_all add: py_print_def filter_remove_entry)
    have a: "audits_dir w' = map_option (placed (x # pre)) (audits_dir w)"
      unfolding w'(3)
      by (cases "audits_dir w") (simp_all add: py_print_def x RegularFile)
    have "move_loop fl ((x # pre) @ (name, RegularFile content) # post) w =
        move_loop fl (pre @ (name, RegularFile content) # post) ?w"
      using ok x RegularFile Cons.prems(3) by auto
    with w'(1) have "move_loop fl ((x # pre) @ (name, RegularFile content) # post) w = Inl w'"
      by simp
    with v a show ?thesis by blast
  qed
qed

lemma placed_fresh:
  "distinct (map fst pre) \<Longrightarrow> fst ` set pre \<inter> fst ` set listing = {} \<Longrightarrow>
   placed pre listing = listing @ filter (\<lambda>(n, e). e \<noteq> SubDir) pre"
proof (induction pre listing rule: placed.induct)
  case (1 listing)
  then show ?case by simp
next
  case (2 filename pre listing)
  then show ?case by simp
next
  case (3 filename content pre listing)
  from 3(3) have "filename \<notin> fst ` set listing" by auto
  then have "map_of listing filename = None" by (simp add: map_of_eq_None_iff)
  then have p: "place_entry filename content listing = listing @ [(filename, RegularFile content)]"
    by (simp add: place_entry_def)
  from 3(2,3) have "fst ` set pre \<inter> fst ` set (listing @ [(filename, RegularFile content)]) = {}"
    by auto
  with 3(1) [unfolded p] 3(2) show ?case by (simp add: p)
qed

section \<open>Claims\<close>

text \<open>
  C7. The positive-result filter is false exactly when the text is empty or contains
  one of the no-finding substrings: \<open>NoVulnerability\<close>, \<open>#No\<close>, \<open>Invalid\<close> on the
  audit path and \<open>#NoVulnerability\<close>, \<open>#No\<close>, \<open>Invalid\<close> on the validated-report
  path. On both paths \<open>#NoVulnerability found\<close> and the empty text are rejected and a
  report with a title and a finding is accepted.
\<close>

theorem is_positive_iff:
  "(\<not> is_positive_audit text \<longleftrightarrow>
      text = [] \<or> (\<exists>p q. text = p @ ''NoVulnerability'' @ q)
        \<or> (\<exists>p q. text = p @ ''#No'' @ q) \<or> (\<exists>p q. text = p @ ''Invalid'' @ q))
   \<and> (\<not> is_positive_validated text \<longleftrightarrow>
      text = [] \<or> (\<exists>p q. text = p @ ''#NoVulnerability'' @ q)
        \<or> (\<exists>p q. text = p @ ''#No'' @ q) \<or> (\<exists>p q. text = p @ ''Invalid'' @ q))
   \<and> \<not> is_positive_audit ''#NoVulnerability found''
   \<and> \<not> is_positive_validated ''#NoVulnerability found''
   \<and> \<not> is_positive_audit ''''
   \<and> \<not> is_positive_validated ''''
   \<and> is_positive_audit (''## Title'' @ [CHR 0x0A] @ ''Found a real bug'')
   \<and> is_positive_validated (''## Title'' @ [CHR 0x0A] @ ''Found a real bug'')"
proof -
  have a: "\<not> is_positive_audit text \<longleftrightarrow>
      text = [] \<or> (\<exists>p q. text = p @ ''NoVulnerability'' @ q)
        \<or> (\<exists>p q. text = p @ ''#No'' @ q) \<or> (\<exists>p q. text = p @ ''Invalid'' @ q)"
    unfolding is_positive_audit_def py_in_iff by blast
  have v: "\<not> is_positive_validated text \<longleftrightarrow>
      text = [] \<or> (\<exists>p q. text = p @ ''#NoVulnerability'' @ q)
        \<or> (\<exists>p q. text = p @ ''#No'' @ q) \<or> (\<exists>p q. text = p @ ''Invalid'' @ q)"
    unfolding is_positive_validated_def py_in_iff by blast
  have e1: "\<not> is_positive_audit ''#NoVulnerability found''"
    by (simp add: is_positive_audit_def)
  have e2: "\<not> is_positive_validated ''#NoVulnerability found''"
    by (simp add: is_positive_validated_def)
  have e3: "\<not> is_positive_audit ''''" by (simp add: is_positive_audit_def)
  have e4: "\<not> is_positive_validated ''''" by (simp add: is_positive_validated_def)
  have e5: "is_positive_audit (''## Title'' @ [CHR 0x0A] @ ''Found a real bug'')"
    by (simp add: is_positive_audit_def)
  have e6: "is_positive_validated (''## Title'' @ [CHR 0x0A] @ ''Found a real bug'')"
    by (simp add: is_positive_validated_def)
  from a v e1 e2 e3 e4 e5 e6 show ?thesis by blast
qed



text \<open>
  C5. A second merge changes no file (only the console grows), so it appends nothing;
  a merge never touches the secondary store; and the records the primary store held
  before a merge are still there, unaltered and in place, after it.
\<close>

theorem merge_idempotent_preserving:
  "merge_validated_into_collections (merge_validated_into_collections w) =
     (merge_validated_into_collections w)
       \<lparr>console :=
          console (merge_validated_into_collections (merge_validated_into_collections w))\<rparr>
   \<and> reversed_collections_json (merge_validated_into_collections w) =
       reversed_collections_json w
   \<and> (\<forall>primary. collections_json w = Some (Parsed primary) \<longrightarrow>
        (\<exists>appended. collections_json (merge_validated_into_collections w) =
           Some (Parsed (primary @ appended))))"
proof (intro conjI allI impI)
  let ?m = merge_validated_into_collections
  show "reversed_collections_json (?m w) = reversed_collections_json w"
    by (simp add: merge_validated_into_collections_def py_print_def
        split: option.splits prod.splits)
  show "\<exists>appended. collections_json (?m w) = Some (Parsed (primary @ appended))"
    if "collections_json w = Some (Parsed primary)" for primary
  proof -
    from that have prim: "load_collections_data w = Some primary"
      by (simp add: load_collections_data_def)
    show ?thesis
    proof (cases "\<exists>secondary. reversed_collections_json w = Some (Parsed secondary)")
      case True
      then obtain secondary where "reversed_collections_json w = Some (Parsed secondary)"
        by blast
      from merge_success [OF prim this] show ?thesis by simp
    next
      case False
      then have "collections_json (?m w) = collections_json w"
        by (auto simp: merge_validated_into_collections_def py_print_def prim json_load_Some
            split: option.splits)
      with that show ?thesis by simp
    qed
  qed
  show "?m (?m w) = (?m w)\<lparr>console := console (?m (?m w))\<rparr>"
  proof (cases "load_collections_data w")
    case None
    then show ?thesis
      by (simp add: merge_validated_into_collections_def py_print_def
          load_collections_data_def)
  next
    case (Some primary)
    note prim = Some
    show ?thesis
    proof (cases "reversed_collections_json w")
      case None
      with prim show ?thesis
        by (simp add: merge_validated_into_collections_def py_print_def
            load_collections_data_def)
    next
      case (Some f)
      show ?thesis
      proof (cases "json_load f")
        case None
        with prim Some show ?thesis
          by (simp add: merge_validated_into_collections_def py_print_def
              load_collections_data_def)
      next
        case (Some secondary)
        with \<open>reversed_collections_json w = Some f\<close>
        have sec: "reversed_collections_json w = Some (Parsed secondary)"
          by (cases f) auto
        let ?merged = "primary @ spec_appended primary [] secondary"
        have first: "?m w = w\<lparr>collections_json := Some (Parsed ?merged),
            console := console w @
              [''Successfully merged'', ''Total items in collections.json'']\<rparr>"
          by (rule merge_success [OF prim sec])
        have "?m (?m w) = (?m w)\<lparr>collections_json :=
              Some (Parsed (?merged @ spec_appended ?merged [] secondary)),
            console := console (?m w) @
              [''Successfully merged'', ''Total items in collections.json'']\<rparr>"
          by (rule merge_success) (simp_all add: first sec load_collections_data_def)
        then show ?thesis
          by (simp add: spec_appended_again first)
      qed
    qed
  qed
qed

theorem merge_idempotent_preserving_witness:
  "\<exists>appended. collections_json (merge_validated_into_collections merge_example_world) =
     Some (Parsed ([[(''url'', JStr ''x'')]] @ appended))"
proof -
  have "collections_json merge_example_world = Some (Parsed [[(''url'', JStr ''x'')]])"
    by (simp add: merge_example_world_def empty_world_def)
  with merge_idempotent_preserving [of merge_example_world] show ?thesis by blast
qed







text \<open>
  C2 (amended). When the agent call raises (a timeout, an element that is not found),
  \<^verbatim>\<open>ask_question\<close> and \<^verbatim>\<open>get_report\<close> print the failure and change no file, so the item
  is pending as before, and the driver loop goes on with the next item. An empty
  clipboard is not treated as a failure: \<^verbatim>\<open>get_report\<close> writes no report file and marks
  the first record with that url as \<open>report_generated = true\<close>.
\<close>

theorem agent_failure_leaves_item_pending:
  "ask_question None now question is_reversed w = py_print ''There was an error in index'' w
   \<and> fst (load_processed_questions (ask_question None now question is_reversed w)) =
       fst (load_processed_questions w)
   \<and> get_report None url w = py_print ''There was an error in index'' w
   \<and> fst (get_pending_urls (get_report None url w)) = fst (get_pending_urls w)
   \<and> (agent counter url = None \<and> counter + 1 < 500 \<longrightarrow>
        report_loop agent (JStr url # rest) counter w =
          report_loop agent rest (counter + 1)
            (py_print ''There was an error in index'' (py_print ''Generating report for'' w)))
   \<and> audits_dir (get_report (Some []) url w) = audits_dir w
   \<and> (url \<noteq> [] \<and> collections_json w = Some (Parsed (pre @ item # post))
        \<and> (\<forall>x \<in> set pre. dict_get x ''url'' \<noteq> JStr url) \<and> dict_get item ''url'' = JStr url \<longrightarrow>
        collections_json (get_report (Some []) url w) =
          Some (Parsed (pre @ dict_set item ''report_generated'' (JBool True) # post))
        \<and> dict_get (dict_set item ''report_generated'' (JBool True)) ''report_generated'' =
            JBool True)"
proof -
  have a: "ask_question None now question is_reversed w =
      py_print ''There was an error in index'' w"
    by (simp add: ask_question_def)
  have b: "get_report None url w = py_print ''There was an error in index'' w"
    by (simp add: get_report_def)
  have c: "report_loop agent (JStr url # rest) counter w =
      report_loop agent rest (counter + 1)
        (py_print ''There was an error in index'' (py_print ''Generating report for'' w))"
    if "agent counter url = None \<and> counter + 1 < 500"
    using that by (simp add: get_report_def)
  have d: "audits_dir (get_report (Some []) url w) = audits_dir w"
    by (simp add: get_report_empty_clipboard py_print_def)
  have e: "collections_json (get_report (Some []) url w) =
          Some (Parsed (pre @ dict_set item ''report_generated'' (JBool True) # post))"
    if "url \<noteq> [] \<and> collections_json w = Some (Parsed (pre @ item # post))
        \<and> (\<forall>x \<in> set pre. dict_get x ''url'' \<noteq> JStr url) \<and> dict_get item ''url'' = JStr url"
  proof -
    from that have "collections_json
        (py_print ''No vulnerability found or clipboard was empty for'' w) =
        Some (Parsed (pre @ item # post))"
      by (simp add: py_print_def)
    with that show ?thesis
      by (simp add: get_report_empty_clipboard mark_report_generated_parsed mark_first_split)
  qed
  show ?thesis
    using a b c d e
    by (simp add: load_processed_questions_print get_pending_urls_print dict_get_dict_set)
qed

theorem agent_failure_leaves_item_pending_witness:
  "report_loop failing_agent [JStr ''u''] 0 asked_world =
     Inr (py_print ''There was an error in index''
            (py_print ''Generating report for'' asked_world))
   \<and> collections_json (get_report (Some []) ''u'' asked_world) =
       Some (Parsed [dict_set (new_entry ''q'' ''u'' ''t'') ''report_generated'' (JBool True)])
   \<and> audits_dir (get_report (Some []) ''u'' asked_world) = Some []"
proof -
  note t = agent_failure_leaves_item_pending
    [of "''now''" "''q''" True asked_world "''u''" failing_agent 0 "[]" "[]"
        "new_entry ''q'' ''u'' ''t''" "[]"]
  have fail: "failing_agent 0 ''u'' = None \<and> (0::nat) + 1 < 500"
    by (simp add: failing_agent_def)
  have store: "''u'' \<noteq> [] \<and> collections_json asked_world =
      Some (Parsed ([] @ new_entry ''q'' ''u'' ''t'' # []))
      \<and> (\<forall>x \<in> set []. dict_get x ''url'' \<noteq> JStr ''u'')
      \<and> dict_get (new_entry ''q'' ''u'' ''t'') ''url'' = JStr ''u''"
    by (simp add: asked_world_def empty_world_def new_entry_def dict_get_def
        dict_get_default_def)
  have dir: "audits_dir asked_world = Some []"
    by (simp add: asked_world_def empty_world_def)
  from t fail have 1: "report_loop failing_agent [JStr ''u''] 0 asked_world =
      report_loop failing_agent [] (0 + 1)
        (py_print ''There was an error in index''
           (py_print ''Generating report for'' asked_world))"
    by blast
  from t store have 2: "collections_json (get_report (Some []) ''u'' asked_world) =
      Some (Parsed ([] @ dict_set (new_entry ''q'' ''u'' ''t'') ''report_generated''
                          (JBool True) # []))"
    by blast
  from t have 3: "audits_dir (get_report (Some []) ''u'' asked_world) = audits_dir asked_world"
    by blast
  from 1 2 3 dir show ?thesis by simp
qed

text \<open>
  The claim as stated fails on the empty clipboard: the record of the url comes out
  with \<open>report_generated = true\<close>, and the url is no longer pending.
\<close>

theorem empty_clipboard_counterexample:
  "collections_json asked_world =
     Some (Parsed [[(''question'', JStr ''q''), (''url'', JStr ''u''),
                    (''timestamp'', JStr ''t''), (''report_generated'', JBool False)]])
   \<and> collections_json (get_report (Some []) ''u'' asked_world) =
     Some (Parsed [[(''question'', JStr ''q''), (''url'', JStr ''u''),
                    (''timestamp'', JStr ''t''), (''report_generated'', JBool True)]])
   \<and> fst (get_pending_urls asked_world) = [JStr ''u'']
   \<and> fst (get_pending_urls (get_report (Some []) ''u'' asked_world)) = []"
  by (simp add: get_report_def is_positive_audit_def mark_report_generated_def
      asked_world_def empty_world_def new_entry_def py_print_def dict_get_def
      dict_get_default_def get_pending_urls_def load_processed_reports_def)

text \<open>
  C1. Running the question extraction driver twice on the same stores does not give
  the stores of one run: \<^verbatim>\<open>get_pending_urls\<close> returns every url of
  \<^verbatim>\<open>questions.json\<close>, also those already marked \<open>questions_generated\<close>, so the second
  run extracts the same questions again and \<^verbatim>\<open>all_questions.json\<close> holds each of them
  twice.
\<close>

theorem question_extraction_rerun_duplicates:
  "all_questions_json (run_questions_generator_questions batch_agent batch_world) =
     Some (Parsed [''[File: lib.rs] Q1''])
   \<and> questions_json (run_questions_generator_questions batch_agent batch_world) =
     Some (Parsed [[(''question'', JStr ''lib.rs''), (''url'', JStr ''u1''),
                    (''questions_generated'', JBool True)]])
   \<and> fst (get_pending_urls_questions
            (run_questions_generator_questions batch_agent batch_world)) = [JStr ''u1'']
   \<and> all_questions_json
       (run_questions_generator_questions batch_agent
          (run_questions_generator_questions batch_agent batch_world)) =
     Some (Parsed [''[File: lib.rs] Q1'', ''[File: lib.rs] Q1''])"
  by (simp add: run_questions_generator_questions_def get_pending_urls_questions_def
      GetQuestions_get_questions_def get_question_content_def mark_questions_generated_def
      load_existing_data_def py_print_def dict_get_def dict_get_default_def
      py_strip_def isspace_def dq_def batch_world_def empty_world_def batch_agent_def)

text \<open>
  C10. A directory that holds only \<open>audit_audit_5.md\<close> has no conforming name (what
  remains between the prefix and the suffix is \<open>audit_5\<close>, no integer), yet the next
  report number is 6: \<^verbatim>\<open>replace\<close> deletes every occurrence of \<open>audit_\<close> and \<open>.md\<close>,
  not the prefix and the suffix only.
\<close>

theorem next_report_number_stray_name:
  "audits_dir stray_name_world = Some [(''audit_audit_5.md'', RegularFile [])]
   \<and> \<not> conforming ''audit_audit_5.md''
   \<and> get_next_report_number stray_name_world = (6, stray_name_world)"
  by (simp add: get_next_report_number_def stray_name_world_def empty_world_def
      next_report_number_def endswith_def report_number_of_def py_int_def
      int_isspace_def isdigit_def List.map_filter_simps conforming_def middle_of_def)

text \<open>
  C9 (amended). The extraction is total. On a text made of quoted segments that begin
  with \<open>[File:\<close>, separated by gaps in which no such segment begins, it returns these
  segments in their order of appearance, duplicates included, each with the whitespace
  at its two ends stripped: as many items as segments, so three for three segments and
  none for a text without any.
\<close>

theorem extraction_in_order:
  assumes "\<forall>(gap, body) \<in> set segments. \<not> py_in file_tag gap \<and> dq \<notin> set body"
    and "\<not> py_in file_tag tail"
  shows "get_question_content (build_text segments tail) =
           map (\<lambda>(gap, body). py_strip (''[File:'' @ body)) segments
         \<and> length (get_question_content (build_text segments tail)) = length segments"
proof -
  have "findall_file (build_text segments tail) =
      map (\<lambda>(gap, body). ''[File:'' @ body) segments"
    using assms by (rule findall_file_build_text)
  then have "get_question_content (build_text segments tail) =
      map (\<lambda>(gap, body). py_strip (''[File:'' @ body)) segments"
    by (simp add: get_question_content_def case_prod_beta)
  then show ?thesis by simp
qed

theorem extraction_in_order_witness:
  "get_question_content (build_text three_segments (''.'' @ [CHR 0x0A])) =
     [''[File: a.rs] Q1'', ''[File: b.rs] Q2'', ''[File: a.rs] Q1'']
   \<and> get_question_content (build_text [] ''no question here'') = []"
proof -
  have segs: "\<forall>(gap, body) \<in> set three_segments. \<not> py_in file_tag gap \<and> dq \<notin> set body"
    by (simp add: three_segments_def file_tag_def dq_def)
  have tail: "\<not> py_in file_tag (''.'' @ [CHR 0x0A])"
    by (simp add: file_tag_def dq_def)
  have none: "\<forall>(gap, body) \<in> set []. \<not> py_in file_tag gap \<and> dq \<notin> set body"
    by simp
  have tail': "\<not> py_in file_tag ''no question here''"
    by (simp add: file_tag_def dq_def)
  have 1: "get_question_content (build_text three_segments (''.'' @ [CHR 0x0A])) =
      [''[File: a.rs] Q1'', ''[File: b.rs] Q2'', ''[File: a.rs] Q1'']"
    using extraction_in_order [OF segs tail]
    by (simp add: three_segments_def py_strip_def isspace_def)
  have 2: "get_question_content (build_text [] ''no question here'') = []"
    using extraction_in_order [OF none tail'] by simp
  from 1 2 show ?thesis by blast
qed

text \<open>
  The claim as stated fails where a segment ends in whitespace: the item returned is
  not the quoted segment.
\<close>

theorem extraction_strip_counterexample:
  "findall_file (dq # ''[File: a] q  '' @ [dq]) = [''[File: a] q  '']
   \<and> get_question_content (dq # ''[File: a] q  '' @ [dq]) = [''[File: a] q'']"
  by (simp add: get_question_content_def py_strip_def isspace_def dq_def)

text \<open>
  C8 (amended). \<^verbatim>\<open>clean_up\<close> propagates nothing: its one handler catches every failure
  and prints it. A failure to create the \<^verbatim>\<open>audits\<close> directory is caught before anything
  was changed. A failure to delete a file of \<^verbatim>\<open>audits\<close> or to move a file of
  \<^verbatim>\<open>validated\<close> ends the reset there: the files deleted or moved before stay so, the
  failing file and all later ones stay where they were, and no store is emptied. When
  no operation fails the reset completes and the three stores are empty arrays.
\<close>

theorem clean_up_failures:
  "(audits_dir w = None \<and> makedirs_fails fl \<longrightarrow>
      clean_up fl w = py_print ''Error during cleanup'' w)
   \<and> (audits_dir w = Some (pre @ (name, RegularFile content) # post)
        \<and> distinct (map fst (pre @ (name, RegularFile content) # post))
        \<and> remove_fails fl name \<and> (\<forall>(n, e) \<in> set pre. \<not> remove_fails fl n) \<longrightarrow>
      audits_dir (clean_up fl w) =
        Some (filter (\<lambda>(n, e). e = SubDir) pre @ (name, RegularFile content) # post)
      \<and> validated_dir (clean_up fl w) = validated_dir w
      \<and> collections_json (clean_up fl w) = collections_json w
      \<and> validated_json (clean_up fl w) = validated_json w
      \<and> reversed_collections_json (clean_up fl w) = reversed_collections_json w
      \<and> last (console (clean_up fl w)) = ''Error during cleanup'')
   \<and> (delete_audits fl w = Inr w1
        \<and> validated_dir w = Some ((name, RegularFile content) # post) \<and> move_fails fl name \<longrightarrow>
      clean_up fl w = py_print ''Error during cleanup'' w1)
   \<and> (delete_audits fl w = Inr w1
        \<and> validated_dir w = Some (pre @ (name, RegularFile content) # post)
        \<and> distinct (map fst (pre @ (name, RegularFile content) # post))
        \<and> move_fails fl name \<and> (\<forall>(n, e) \<in> set pre. \<not> move_fails fl n) \<longrightarrow>
      validated_dir (clean_up fl w) =
        Some (filter (\<lambda>(n, e). e = SubDir) pre @ (name, RegularFile content) # post)
      \<and> audits_dir (clean_up fl w) = map_option (placed pre) (audits_dir w1)
      \<and> collections_json (clean_up fl w) = collections_json w
      \<and> validated_json (clean_up fl w) = validated_json w
      \<and> reversed_collections_json (clean_up fl w) = reversed_collections_json w
      \<and> last (console (clean_up fl w)) = ''Error during cleanup'')
   \<and> (\<not> makedirs_fails fl \<and> (\<forall>f. \<not> remove_fails fl f) \<and> (\<forall>f. \<not> move_fails fl f)
        \<and> (\<forall>f. \<not> open_fails fl f) \<longrightarrow>
      collections_json (clean_up fl w) = Some (Parsed [])
      \<and> validated_json (clean_up fl w) = Some (Parsed [])
      \<and> reversed_collections_json (clean_up fl w) = Some (Parsed [])
      \<and> last (console (clean_up fl w)) = ''=== Cleanup completed successfully ==='')"
proof (intro conjI impI)
  assume "audits_dir w = None \<and> makedirs_fails fl"
  then have "delete_audits fl w = Inl w" by (simp add: delete_audits_def)
  then show "clean_up fl w = py_print ''Error during cleanup'' w" by (rule clean_up_raised)
next
  let ?listing = "pre @ (name, RegularFile content) # post"
  assume a: "audits_dir w = Some ?listing \<and> distinct (map fst ?listing)
      \<and> remove_fails fl name \<and> (\<forall>(n, e) \<in> set pre. \<not> remove_fails fl n)"
  then obtain w' where loop: "delete_loop fl ?listing w = Inl w'"
    and dir: "audits_dir w' =
      map_option (filter (\<lambda>(n, e). n \<notin> set (deleted_names pre))) (audits_dir w)"
    using delete_loop_abort [of fl name pre content post w] by blast
  from a loop have "delete_audits fl w = Inl w'" by (simp add: delete_audits_def)
  then have c: "clean_up fl w = py_print ''Error during cleanup'' w'" by (rule clean_up_raised)
  have w': "w' = world_of (delete_loop fl ?listing w)" by (simp add: loop)
  from a have d: "distinct (map fst ?listing)" by blast
  from a dir have "audits_dir w' =
      Some (filter (\<lambda>(n, e). n \<notin> set (deleted_names pre)) ?listing)"
    by (simp only: option.map)
  then have kept: "audits_dir w' =
      Some (filter (\<lambda>(n, e). e = SubDir) pre @ (name, RegularFile content) # post)"
    by (simp only: kept_entries [OF d])
  show "audits_dir (clean_up fl w) =
      Some (filter (\<lambda>(n, e). e = SubDir) pre @ (name, RegularFile content) # post)"
    by (simp add: c kept)
  show "validated_dir (clean_up fl w) = validated_dir w" by (simp add: c w')
  show "collections_json (clean_up fl w) = collections_json w" by (simp add: c w')
  show "validated_json (clean_up fl w) = validated_json w" by (simp add: c w')
  show "reversed_collections_json (clean_up fl w) = reversed_collections_json w"
    by (simp add: c w')
  show "last (console (clean_up fl w)) = ''Error during cleanup''" by (simp add: c)
next
  assume a: "delete_audits fl w = Inr w1
      \<and> validated_dir w = Some ((name, RegularFile content) # post) \<and> move_fails fl name"
  then have "validated_dir w1 = Some ((name, RegularFile content) # post)"
    using delete_audits_validated_dir [of fl w w1] by simp
  with a have "move_validated fl w1 = Inl w1" by (simp add: move_validated_def)
  with a show "clean_up fl w = py_print ''Error during cleanup'' w1"
    by (simp add: clean_up_def clean_up_body_def)
next
  let ?listing = "pre @ (name, RegularFile content) # post"
  assume a: "delete_audits fl w = Inr w1 \<and> validated_dir w = Some ?listing
      \<and> distinct (map fst ?listing)
      \<and> move_fails fl name \<and> (\<forall>(n, e) \<in> set pre. \<not> move_fails fl n)"
  then have d1: "delete_audits fl w = Inr w1" by blast
  note r = delete_audits_result [OF d1]
  from a have v1: "validated_dir w1 = Some ?listing"
    using delete_audits_validated_dir [OF d1] by simp
  from a r(1) obtain w' where loop: "move_loop fl ?listing w1 = Inl w'"
    and val: "validated_dir w' =
      map_option (filter (\<lambda>(n, e). n \<notin> set (deleted_names pre))) (validated_dir w1)"
    and aud: "audits_dir w' = map_option (placed pre) (audits_dir w1)"
    using move_loop_abort [of fl name pre w1 content post] by blast
  from v1 loop have "move_validated fl w1 = Inl w'" by (simp add: move_validated_def)
  with d1 have c: "clean_up fl w = py_print ''Error during cleanup'' w'"
    by (simp add: clean_up_def clean_up_body_def)
  have w': "w' = world_of (move_loop fl ?listing w1)" by (simp add: loop)
  from a have d: "distinct (map fst ?listing)" by blast
  from val v1 have "validated_dir w' =
      Some (filter (\<lambda>(n, e). n \<notin> set (deleted_names pre)) ?listing)"
    by (simp only: option.map)
  then have kept: "validated_dir w' =
      Some (filter (\<lambda>(n, e). e = SubDir) pre @ (name, RegularFile content) # post)"
    by (simp only: kept_entries [OF d])
  show "validated_dir (clean_up fl w) =
      Some (filter (\<lambda>(n, e). e = SubDir) pre @ (name, RegularFile content) # post)"
    by (simp add: c kept)
  show "audits_dir (clean_up fl w) = map_option (placed pre) (audits_dir w1)"
    by (simp add: c aud)
  show "collections_json (clean_up fl w) = collections_json w" by (simp add: c w' r)
  show "validated_json (clean_up fl w) = validated_json w" by (simp add: c w' r)
  show "reversed_collections_json (clean_up fl w) = reversed_collections_json w"
    by (simp add: c w' r)
  show "last (console (clean_up fl w)) = ''Error during cleanup''" by (simp add: c)
next
  assume a: "\<not> makedirs_fails fl \<and> (\<forall>f. \<not> remove_fails fl f) \<and> (\<forall>f. \<not> move_fails fl f)
      \<and> (\<forall>f. \<not> open_fails fl f)"
  then have all: "collections_json (clean_up fl w) = Some (Parsed [])
    \<and> validated_json (clean_up fl w) = Some (Parsed [])
    \<and> reversed_collections_json (clean_up fl w) = Some (Parsed [])
    \<and> last (console (clean_up fl w)) = ''=== Cleanup completed successfully ==='' "
    by (intro clean_up_completes) auto
  from all show "collections_json (clean_up fl w) = Some (Parsed [])" by blast
  from all show "validated_json (clean_up fl w) = Some (Parsed [])" by blast
  from all show "reversed_collections_json (clean_up fl w) = Some (Parsed [])" by blast
  from all show "last (console (clean_up fl w)) = ''=== Cleanup completed successfully ==='' "
    by blast
qed

theorem clean_up_failures_witness:
  "clean_up stuck_makedirs empty_world = py_print ''Error during cleanup'' empty_world
   \<and> audits_dir (clean_up stuck_remove_second stuck_world) =
       Some [(''audit_2.md'', RegularFile ''b'')]
   \<and> collections_json (clean_up stuck_remove_second stuck_world) =
       Some (Parsed [new_entry ''q'' ''u'' ''t''])
   \<and> validated_dir (clean_up stuck_move stuck_world) = Some [(''audit_3.md'', RegularFile ''c'')]
   \<and> audits_dir (clean_up stuck_move stuck_world) = Some []
   \<and> validated_dir (clean_up stuck_move_second two_validated_world) =
       Some [(''audit_4.md'', RegularFile ''d'')]
   \<and> audits_dir (clean_up stuck_move_second two_validated_world) =
       Some [(''audit_3.md'', RegularFile ''c'')]
   \<and> collections_json (clean_up stuck_move_second two_validated_world) =
       Some (Parsed [new_entry ''q'' ''u'' ''t''])
   \<and> collections_json (clean_up no_faults stuck_world) = Some (Parsed [])"
proof -
  let ?w2 = "two_validated_world\<lparr>audits_dir := Some [],
      console := [''Deleted'', ''Deleted'', ''Cleaned audits folder'']\<rparr>"
  have mv2: "delete_audits stuck_move_second two_validated_world = Inr ?w2
    \<and> validated_dir two_validated_world =
        Some ([(''audit_3.md'', RegularFile ''c'')] @ (''audit_4.md'', RegularFile ''d'') # [])
    \<and> distinct (map fst ([(''audit_3.md'', RegularFile ''c'')]
          @ (''audit_4.md'', RegularFile ''d'') # []))
    \<and> move_fails stuck_move_second ''audit_4.md''
    \<and> (\<forall>(n, e) \<in> set [(''audit_3.md'', RegularFile ''c'')].
          \<not> move_fails stuck_move_second n)"
    by (simp add: delete_audits_def two_validated_world_def stuck_world_def empty_world_def
        stuck_move_second_def no_faults_def py_print_def remove_entry_def)
  have 5: "validated_dir (clean_up stuck_move_second two_validated_world) =
        Some (filter (\<lambda>(n, e). e = SubDir) [(''audit_3.md'', RegularFile ''c'')]
              @ (''audit_4.md'', RegularFile ''d'') # [])
      \<and> audits_dir (clean_up stuck_move_second two_validated_world) =
          map_option (placed [(''audit_3.md'', RegularFile ''c'')]) (audits_dir ?w2)
      \<and> collections_json (clean_up stuck_move_second two_validated_world) =
          collections_json two_validated_world"
    using clean_up_failures [where w = two_validated_world and fl = stuck_move_second
        and pre = "[(''audit_3.md'', RegularFile ''c'')]" and name = "''audit_4.md''"
        and content = "''d''" and post = "[]" and ?w1.0 = ?w2] mv2
    by blast
  let ?w1 = "stuck_world\<lparr>audits_dir := Some [],
      console := [''Deleted'', ''Deleted'', ''Cleaned audits folder'']\<rparr>"
  have mk: "audits_dir empty_world = None \<and> makedirs_fails stuck_makedirs"
    by (simp add: empty_world_def stuck_makedirs_def no_faults_def)
  have rm: "audits_dir stuck_world =
      Some ([(''audit_1.md'', RegularFile ''a'')] @ (''audit_2.md'', RegularFile ''b'') # [])
    \<and> distinct (map fst ([(''audit_1.md'', RegularFile ''a'')]
          @ (''audit_2.md'', RegularFile ''b'') # []))
    \<and> remove_fails stuck_remove_second ''audit_2.md''
    \<and> (\<forall>(n, e) \<in> set [(''audit_1.md'', RegularFile ''a'')].
          \<not> remove_fails stuck_remove_second n)"
    by (simp add: stuck_world_def empty_world_def stuck_remove_second_def no_faults_def)
  have mv: "delete_audits stuck_move stuck_world = Inr ?w1
    \<and> validated_dir stuck_world = Some ((''audit_3.md'', RegularFile ''c'') # [])
    \<and> move_fails stuck_move ''audit_3.md''"
    by (simp add: delete_audits_def stuck_world_def empty_world_def stuck_move_def
        no_faults_def py_print_def remove_entry_def)
  have ok: "\<not> makedirs_fails no_faults \<and> (\<forall>f. \<not> remove_fails no_faults f)
    \<and> (\<forall>f. \<not> move_fails no_faults f) \<and> (\<forall>f. \<not> open_fails no_faults f)"
    by (simp add: no_faults_def)
  have 1: "clean_up stuck_makedirs empty_world = py_print ''Error during cleanup'' empty_world"
    using clean_up_failures [where w = empty_world and fl = stuck_makedirs] mk by blast
  have 2: "audits_dir (clean_up stuck_remove_second stuck_world) =
        Some (filter (\<lambda>(n, e). e = SubDir) [(''audit_1.md'', RegularFile ''a'')]
              @ (''audit_2.md'', RegularFile ''b'') # [])
      \<and> collections_json (clean_up stuck_remove_second stuck_world) =
          collections_json stuck_world"
    using clean_up_failures [where w = stuck_world and fl = stuck_remove_second
        and pre = "[(''audit_1.md'', RegularFile ''a'')]" and name = "''audit_2.md''"
        and content = "''b''" and post = "[]"] rm
    by blast
  have 3: "clean_up stuck_move stuck_world = py_print ''Error during cleanup'' ?w1"
    using clean_up_failures [where w = stuck_world and fl = stuck_move
        and name = "''audit_3.md''" and content = "''c''" and post = "[]" and ?w1.0 = ?w1] mv
    by blast
  have 4: "collections_json (clean_up no_faults stuck_world) = Some (Parsed [])"
    using clean_up_failures [where w = stuck_world and fl = no_faults] ok by blast
  from 1 2 3 4 5 show ?thesis
    by (simp add: two_validated_world_def stuck_world_def empty_world_def py_print_def
        place_entry_def)
qed

text \<open>
  The claim as stated fails on both counts. A report that cannot be removed ends the
  reset: the next report is not deleted, the validated report is not moved, the store
  is not emptied. And a failure to create the directory is caught and printed; the
  function returns.
\<close>

theorem clean_up_abort_counterexample:
  "remove_fails stuck_remove ''audit_1.md''
   \<and> audits_dir (clean_up stuck_remove stuck_world) =
       Some [(''audit_1.md'', RegularFile ''a''), (''audit_2.md'', RegularFile ''b'')]
   \<and> validated_dir (clean_up stuck_remove stuck_world) =
       Some [(''audit_3.md'', RegularFile ''c'')]
   \<and> collections_json (clean_up stuck_remove stuck_world) =
       Some (Parsed [new_entry ''q'' ''u'' ''t''])
   \<and> console (clean_up stuck_remove stuck_world) = [''Error during cleanup'']
   \<and> makedirs_fails stuck_makedirs
   \<and> audits_dir (clean_up stuck_makedirs empty_world) = None
   \<and> console (clean_up stuck_makedirs empty_world) = [''Error during cleanup'']"
  by (simp add: clean_up_def clean_up_body_def delete_audits_def stuck_world_def
      empty_world_def stuck_remove_def stuck_makedirs_def no_faults_def py_print_def)

end
